theory Spec2Isabelle
  imports Complex_Main
begin

section \<open>Travel-time tables of \<open>seismic/pick_harvester/travel_time.py\<close>\<close>

subsection \<open>Values and errors\<close>

text \<open>
  A Python float (an IEEE double) is kept as the real number it denotes, or as one of the
  three special values. The source never does arithmetic on the table values: it reads
  them, compares them with the sentinel, tests them for not-a-number and hands them on.
\<close>

datatype pyfloat = Num real | PInf | NInf | NaN

text \<open>
  The exceptions that the source raises or lets through. \<open>LibraryError\<close> stands for what
  the interpolator of the library may raise when it is built.
\<close>

datatype error =
    ValueError string
  | AssertionError
  | IndexError
  | OSError
  | AttributeError
  | LibraryError

fun isnan :: "pyfloat \<Rightarrow> bool" where
  "isnan NaN = True"
| "isnan _ = False"

text \<open>\<open>LARGE_VALUE = float(np.iinfo('i4').max)\<close>, the largest signed 32-bit integer.\<close>

definition LARGE_VALUE :: pyfloat where
  "LARGE_VALUE = Num (2 ^ 31 - 1)"

subsection \<open>Python's \<open>str.split()\<close> and \<open>' '.join\<close>\<close>

text \<open>
  A line of the file is a \<open>string\<close>, one \<open>char\<close> per code point below 256.
  \<open>str.split()\<close> without an argument cuts at runs of white space and yields no empty
  token; white space is what \<open>str.isspace\<close> accepts in that range.
\<close>

definition isspace :: "char \<Rightarrow> bool" where
  "isspace c = (c \<in> set [CHR 0x09, CHR 0x0A, CHR 0x0B, CHR 0x0C, CHR 0x0D,
      CHR 0x1C, CHR 0x1D, CHR 0x1E, CHR 0x1F, CHR 0x20, CHR 0x85, CHR 0xA0])"

fun split_from :: "string \<Rightarrow> string \<Rightarrow> string list" where
  "split_from cur [] = (if cur = [] then [] else [cur])"
| "split_from cur (c # cs) =
     (if isspace c then (if cur = [] then split_from [] cs else cur # split_from [] cs)
      else split_from (cur @ [c]) cs)"

definition py_split :: "string \<Rightarrow> string list" where
  "py_split line = split_from [] line"

fun py_join :: "string list \<Rightarrow> string" where
  "py_join [] = []"
| "py_join [t] = t"
| "py_join (t # ts) = t @ '' '' @ py_join ts"

subsection \<open>\<open>Phase._parse_tt\<close>: the first pass finds the section boundaries\<close>

record bounds =
  dists_start :: int
  dists_end :: int
  depths_start :: int
  depths_end :: int
  times_start :: int
  times_end :: int
  dtdd_start :: int
  dtdd_end :: int
  dtdh_start :: int
  dtdh_end :: int

text \<open>Lines 41 to 50 of the source: every boundary starts at zero.\<close>

definition bounds0 :: bounds where
  "bounds0 = \<lparr> dists_start = 0, dists_end = 0, depths_start = 0, depths_end = 0,
               times_start = 0, times_end = 0, dtdd_start = 0, dtdd_end = 0,
               dtdh_start = 0, dtdh_end = 0 \<rparr>"

definition delta_marker :: string where
  "delta_marker = ''# delta samples''"

definition depth_marker :: string where
  "depth_marker = ''# depth samples''"

definition times_marker :: string where
  "times_marker = ''# travel times (rows - delta, columns - depth)''"

definition dtdd_marker :: string where
  "dtdd_marker = ''# dtdd (rows - delta, columns - depth)''"

definition dtdh_marker :: string where
  "dtdh_marker = ''# dtdh (rows - delta, columns - depth)''"

text \<open>The body of the first loop (lines 54 to 69) for the line at index \<open>ind\<close>.\<close>

definition mark_line :: "string \<Rightarrow> int \<Rightarrow> bounds \<Rightarrow> bounds" where
  "mark_line line ind b =
     (let row = py_split line in
      if py_join row = delta_marker then b\<lparr>dists_start := ind + 1\<rparr>
      else if py_join row = depth_marker then b\<lparr>dists_end := ind - 1, depths_start := ind + 1\<rparr>
      else if py_join row = times_marker then b\<lparr>depths_end := ind - 2, times_start := ind + 2\<rparr>
      else if py_join row = dtdd_marker then b\<lparr>times_end := ind - 2, dtdd_start := ind + 2\<rparr>
      else if py_join row = dtdh_marker then b\<lparr>dtdd_end := ind - 2, dtdh_start := ind + 2\<rparr>
      else b)"

fun scan_markers :: "string list \<Rightarrow> int \<Rightarrow> bounds \<Rightarrow> bounds" where
  "scan_markers [] ind b = b"
| "scan_markers (line # ls) ind b = scan_markers ls (ind + 1) (mark_line line ind b)"

text \<open>Lines 52 to 72: the loop from index zero, then \<open>dtdh_end = ind - 4\<close>.\<close>

definition find_bounds :: "string list \<Rightarrow> bounds" where
  "find_bounds lines = (scan_markers lines 0 bounds0)\<lparr>dtdh_end := int (length lines) - 4\<rparr>"

subsection \<open>The second pass collects the numbers of each section\<close>

datatype sect = Dists | Depths | Times | Dtdd | Dtdh | Skipped

text \<open>\<open>ind in range(a, b + 1)\<close> for integers.\<close>

definition in_range :: "int \<Rightarrow> int \<Rightarrow> int \<Rightarrow> bool" where
  "in_range ind a b = (a \<le> ind \<and> ind < b + 1)"

text \<open>The \<open>if\<close>/\<open>elif\<close> chain of lines 77 to 86: the first range that holds the index wins.\<close>

definition section_of :: "bounds \<Rightarrow> int \<Rightarrow> sect" where
  "section_of b ind =
     (if in_range ind (dists_start b) (dists_end b) then Dists
      else if in_range ind (depths_start b) (depths_end b) then Depths
      else if in_range ind (times_start b) (times_end b) then Times
      else if in_range ind (dtdd_start b) (dtdd_end b) then Dtdd
      else if in_range ind (dtdh_start b) (dtdh_end b) then Dtdh
      else Skipped)"

text \<open>
  \<open>float\<close> is Python's built-in conversion of a token; the development takes it as a
  parameter \<open>pf\<close>, \<open>None\<close> where \<open>float\<close> raises \<open>ValueError\<close>.
  \<open>[float(item) for item in row if item != '']\<close> stops at the first token that fails.
\<close>

type_synonym float_parser = "string \<Rightarrow> pyfloat option"

fun floats :: "float_parser \<Rightarrow> string list \<Rightarrow> error + pyfloat list" where
  "floats pf [] = Inr []"
| "floats pf (item # row) =
     (if item \<noteq> [] then
        (case pf item of
           None \<Rightarrow> Inl (ValueError (''could not convert string to float: '' @ item))
         | Some v \<Rightarrow> (case floats pf row of Inl e \<Rightarrow> Inl e | Inr vs \<Rightarrow> Inr (v # vs)))
      else floats pf row)"

record sections =
  sec_ecdists :: "pyfloat list"
  sec_depths_km :: "pyfloat list"
  sec_times :: "pyfloat list list"
  sec_dtdd :: "pyfloat list list"
  sec_dtdh :: "pyfloat list list"

definition sections0 :: sections where
  "sections0 = \<lparr> sec_ecdists = [], sec_depths_km = [], sec_times = [], sec_dtdd = [],
                 sec_dtdh = [] \<rparr>"

text \<open>The body of the second loop (lines 76 to 86) for the line at index \<open>ind\<close>.\<close>

definition collect_line :: "float_parser \<Rightarrow> bounds \<Rightarrow> string \<Rightarrow> int \<Rightarrow> sections \<Rightarrow> error + sections" where
  "collect_line pf b line ind s =
     (let row = py_split line in
      case section_of b ind of
        Skipped \<Rightarrow> Inr s
      | Dists \<Rightarrow> (case floats pf row of Inl e \<Rightarrow> Inl e
           | Inr vs \<Rightarrow> Inr (s\<lparr>sec_ecdists := sec_ecdists s @ vs\<rparr>))
      | Depths \<Rightarrow> (case floats pf row of Inl e \<Rightarrow> Inl e
           | Inr vs \<Rightarrow> Inr (s\<lparr>sec_depths_km := sec_depths_km s @ vs\<rparr>))
      | Times \<Rightarrow> (case floats pf row of Inl e \<Rightarrow> Inl e
           | Inr vs \<Rightarrow> Inr (s\<lparr>sec_times := sec_times s @ [vs]\<rparr>))
      | Dtdd \<Rightarrow> (case floats pf row of Inl e \<Rightarrow> Inl e
           | Inr vs \<Rightarrow> Inr (s\<lparr>sec_dtdd := sec_dtdd s @ [vs]\<rparr>))
      | Dtdh \<Rightarrow> (case floats pf row of Inl e \<Rightarrow> Inl e
           | Inr vs \<Rightarrow> Inr (s\<lparr>sec_dtdh := sec_dtdh s @ [vs]\<rparr>)))"

fun collect :: "float_parser \<Rightarrow> bounds \<Rightarrow> string list \<Rightarrow> int \<Rightarrow> sections \<Rightarrow> error + sections" where
  "collect pf b [] ind s = Inr s"
| "collect pf b (line # ls) ind s =
     (case collect_line pf b line ind s of
        Inl e \<Rightarrow> Inl e
      | Inr s' \<Rightarrow> collect pf b ls (ind + 1) s')"

subsection \<open>The arrays of numpy that \<open>_parse_tt\<close> builds\<close>

text \<open>
  \<open>np.array\<close> of a list of rows: the empty list gives a one-dimensional array of shape
  \<open>(0,)\<close>, rows of one length \<open>c\<close> give shape \<open>(r, c)\<close>, and rows of different lengths
  are refused (\<open>ValueError\<close>, inhomogeneous shape). Both shapes are kept as the list of
  rows itself.
\<close>

definition np_array :: "pyfloat list list \<Rightarrow> error + pyfloat list list" where
  "np_array rows =
     (if list_all (\<lambda>r. length r = length (hd rows)) rows then Inr rows
      else Inl (ValueError ''inhomogeneous shape''))"

text \<open>\<open>a[a == nanval] = np.nan\<close>\<close>

definition mask_nan :: "pyfloat \<Rightarrow> pyfloat list list \<Rightarrow> pyfloat list list" where
  "mask_nan nanval a = map (map (\<lambda>v. if v = nanval then NaN else v)) a"

definition np_isnan :: "pyfloat list list \<Rightarrow> bool list list" where
  "np_isnan a = map (map isnan) a"

text \<open>
  \<open>np.all(x == y)\<close> compares under numpy's broadcasting: the shape \<open>(0,)\<close> counts as
  \<open>(1, 0)\<close>, two extents agree when they are equal or one of them is 1, and an extent of 1
  is repeated. Shapes that do not agree make the comparison raise.
\<close>

definition bshape :: "'a list list \<Rightarrow> nat \<times> nat" where
  "bshape a = (if a = [] then (1, 0) else (length a, length (hd a)))"

definition bdim :: "nat \<Rightarrow> nat \<Rightarrow> nat option" where
  "bdim m n = (if m = n then Some m else if m = 1 then Some n else if n = 1 then Some m else None)"

definition bget :: "'a list list \<Rightarrow> nat \<Rightarrow> nat \<Rightarrow> 'a" where
  "bget a i j = a ! (if fst (bshape a) = 1 then 0 else i) ! (if snd (bshape a) = 1 then 0 else j)"

definition np_all_eq :: "bool list list \<Rightarrow> bool list list \<Rightarrow> error + bool" where
  "np_all_eq x y =
     (case (bdim (fst (bshape x)) (fst (bshape y)), bdim (snd (bshape x)) (snd (bshape y))) of
        (Some r, Some c) \<Rightarrow>
          Inr (list_all (\<lambda>i. list_all (\<lambda>j. bget x i j = bget y i j) [0..<c]) [0..<r])
      | _ \<Rightarrow> Inl (ValueError ''operands could not be broadcast together''))"

text \<open>\<open>assert np.all(np.isnan(x) == np.isnan(y))\<close>: the assertion carries no message.\<close>

definition assert_same_nan :: "pyfloat list list \<Rightarrow> pyfloat list list \<Rightarrow> error + unit" where
  "assert_same_nan x y =
     (case np_all_eq (np_isnan x) (np_isnan y) of
        Inl e \<Rightarrow> Inl e
      | Inr ok \<Rightarrow> (if ok then Inr () else Inl AssertionError))"

subsection \<open>\<open>Phase._parse_tt\<close>\<close>

record grids =
  ecdists :: "pyfloat list"
  depths_km :: "pyfloat list"
  times :: "pyfloat list list"
  dtdd :: "pyfloat list list"
  dtdh :: "pyfloat list list"

text \<open>
  The files are a map from a path to the lines \<open>open(tt_fn).readlines()\<close> gives; a path
  that cannot be opened raises. Lines 91 to 102 turn the collected lists into arrays,
  replace the sentinel and check the masks.
\<close>

type_synonym files = "string \<Rightarrow> string list option"

definition make_grids :: "pyfloat \<Rightarrow> sections \<Rightarrow> error + grids" where
  "make_grids nanval s =
     (case np_array (sec_times s) of Inl e \<Rightarrow> Inl e | Inr t \<Rightarrow>
     (case np_array (sec_dtdd s) of Inl e \<Rightarrow> Inl e | Inr d \<Rightarrow>
     (case np_array (sec_dtdh s) of Inl e \<Rightarrow> Inl e | Inr h \<Rightarrow>
     (let t' = mask_nan nanval t; d' = mask_nan nanval d; h' = mask_nan nanval h in
     (case assert_same_nan t' d' of Inl e \<Rightarrow> Inl e | Inr _ \<Rightarrow>
     (case assert_same_nan t' h' of Inl e \<Rightarrow> Inl e | Inr _ \<Rightarrow>
        Inr \<lparr> ecdists = sec_ecdists s, depths_km = sec_depths_km s,
              times = t', dtdd = d', dtdh = h' \<rparr>))))))"

definition parse_lines :: "float_parser \<Rightarrow> pyfloat \<Rightarrow> string list \<Rightarrow> error + grids" where
  "parse_lines pf nanval lines =
     (case collect pf (find_bounds lines) lines 0 sections0 of
        Inl e \<Rightarrow> Inl e
      | Inr s \<Rightarrow> make_grids nanval s)"

definition parse_tt :: "float_parser \<Rightarrow> files \<Rightarrow> string \<Rightarrow> pyfloat \<Rightarrow> error + grids" where
  "parse_tt pf fs tt_fn nanval =
     (case fs tt_fn of
        None \<Rightarrow> Inl OSError
      | Some lines \<Rightarrow> parse_lines pf nanval lines)"

text \<open>The default \<open>nanval=-999.0\<close>.\<close>

definition nanval_default :: pyfloat where
  "nanval_default = Num (- 999)"

subsection \<open>Marker lines\<close>

text \<open>A line that one of the five comparisons of the first loop recognises.\<close>

definition marker_line :: "string \<Rightarrow> bool" where
  "marker_line line =
     (py_join (py_split line) \<in>
        set [delta_marker, depth_marker, times_marker, dtdd_marker, dtdh_marker])"

definition has_marker :: "string \<Rightarrow> string list \<Rightarrow> bool" where
  "has_marker m lines = list_ex (\<lambda>line. py_join (py_split line) = m) lines"

subsection \<open>\<open>Phase.__init__\<close>\<close>

text \<open>
  \<open>CloughTocher2DInterpolator\<close> belongs to scipy, not to this repository: the
  development takes it as a parameter \<open>ct\<close>. Given the sample points, their values and the
  fill value, it raises or returns the interpolant, a function of distance and depth;
  called on arrays, an interpolant answers point by point.
\<close>

type_synonym interpolant = "pyfloat \<Rightarrow> pyfloat \<Rightarrow> pyfloat"


record Phase = grids +
  p_fill_value :: pyfloat
  times_io :: interpolant
  dtdd_io :: interpolant
  dtdh_io :: interpolant




subsection \<open>\<open>TTInterpolator.__init__\<close>: the registry\<close>

text \<open>
  A phase label is a byte string or a text string; the two are never equal in Python,
  whatever their characters. \<open>str.encode\<close> is UTF-8: a code point below 128 is one byte,
  one from 128 to 255 is two.
\<close>

datatype label = Bytes string | Str string






definition keys :: "('k \<times> 'v) list \<Rightarrow> 'k list" where
  "keys d = map fst d"

type_synonym registry = "(string \<times> (label \<times> Phase) list) list"

record TTInterpolator =
  fill_value :: pyfloat
  phases :: registry

text \<open>
  \<open>self.phases\<close> is a \<open>defaultdict\<close>: reading \<open>self.phases[model]\<close> for a model that is
  not a key stores an empty dictionary under it and returns that.
\<close>

definition phases_get :: "registry \<Rightarrow> string \<Rightarrow> (label \<times> Phase) list \<times> registry" where
  "phases_get r model =
     (case map_of r model of
        Some d \<Rightarrow> (d, r)
      | None \<Rightarrow> ([], r @ [(model, [])]))"




subsection \<open>The 32-bit floats of the batched result\<close>

text \<open>
  Storing a double in an array of \<open>dtype='f4'\<close> rounds it to the nearest number with a
  24-bit significand, ties to the even one; the exponent of the last place is at least
  \<open>-149\<close>, and what rounds to \<open>2 ^ 128\<close> or more becomes an infinity.
  \<open>ilog2 n\<close> is the position of the leading bit of \<open>n \<ge> 1\<close>, and \<open>floor_log2 x\<close> the integer
  part of the binary logarithm of \<open>x > 0\<close>.
\<close>

function ilog2 :: "int \<Rightarrow> int" where
  "ilog2 n = (if n \<le> 1 then 0 else 1 + ilog2 (n div 2))"
  by pat_completeness auto
termination
  by (relation "measure nat") auto

declare ilog2.simps [simp del]

definition floor_log2 :: "real \<Rightarrow> int" where
  "floor_log2 x =
     (if 1 \<le> x then ilog2 \<lfloor>x\<rfloor>
      else if \<lceil>1 / x\<rceil> \<le> 1 then 0
      else - (ilog2 (\<lceil>1 / x\<rceil> - 1) + 1))"

definition round_half_even :: "real \<Rightarrow> int" where
  "round_half_even q =
     (let f = \<lfloor>q\<rfloor>; d = q - of_int f in
      if d < 1 / 2 then f else if 1 / 2 < d then f + 1 else if even f then f else f + 1)"

definition f4_real :: "real \<Rightarrow> pyfloat" where
  "f4_real x =
     (if x = 0 then Num 0
      else
        (let a = \<bar>x\<bar>;
             e = max (floor_log2 a) (- 126);
             u = 2 powi (e - 23);
             y = of_int (round_half_even (a / u)) * u in
         if 2 ^ 128 \<le> y then (if x < 0 then NInf else PInf)
         else Num (if x < 0 then - y else y)))"

fun f4 :: "pyfloat \<Rightarrow> pyfloat" where
  "f4 (Num x) = f4_real x"
| "f4 v = v"

subsection \<open>The queries \<open>get_tt\<close>, \<open>get_dtdd\<close> and \<open>get_dtdh\<close>\<close>

text \<open>
  A query is batched when \<open>type(phase) == np.ndarray\<close>, with arrays of distances and
  depths beside the array of labels, and scalar otherwise: one label that can be hashed,
  one distance and one depth. The answer is an array of 32-bit floats or one value.
\<close>

datatype query = Batched "label list" "pyfloat list" "pyfloat list" | Scalar label pyfloat pyfloat

datatype answer = Array "pyfloat list" | Value pyfloat

text \<open>\<open>np.argwhere(cphase == phase).flatten()\<close>\<close>

definition argwhere :: "label \<Rightarrow> label list \<Rightarrow> nat list" where
  "argwhere cphase phase = filter (\<lambda>i. phase ! i = cphase) [0..<length phase]"

text \<open>\<open>a[indices]\<close> for an array of indices raises when an index is out of range.\<close>

definition take_at :: "'a list \<Rightarrow> nat list \<Rightarrow> error + 'a list" where
  "take_at a indices =
     (if list_all (\<lambda>i. i < length a) indices then Inr (map (\<lambda>i. a ! i) indices)
      else Inl IndexError)"

text \<open>\<open>result[indices] = values\<close>, each value rounded as it is stored.\<close>

fun put :: "pyfloat list \<Rightarrow> nat list \<Rightarrow> pyfloat list \<Rightarrow> pyfloat list" where
  "put result (i # indices) (v # vals) = put (result[i := f4 v]) indices vals"
| "put result _ _ = result"

text \<open>
  The loop \<open>for cphase in self.phases[model].keys()\<close> of the batched shape; \<open>io\<close> selects
  the interpolant of the phase that the function asks (\<open>times_io\<close> in \<open>get_tt\<close>).
\<close>

fun batched_loop ::
  "(Phase \<Rightarrow> interpolant) \<Rightarrow> (label \<times> Phase) list \<Rightarrow> label list \<Rightarrow> label list \<Rightarrow>
     pyfloat list \<Rightarrow> pyfloat list \<Rightarrow> pyfloat list \<Rightarrow> error + pyfloat list" where
  "batched_loop io d [] phase ecdist depth_km result = Inr result"
| "batched_loop io d (cphase # ks) phase ecdist depth_km result =
     (let indices = argwhere cphase phase in
      if indices \<noteq> [] then
        (case map_of d cphase of
           None \<Rightarrow> Inl AttributeError
         | Some p \<Rightarrow>
            (case take_at ecdist indices of Inl e \<Rightarrow> Inl e | Inr xs \<Rightarrow>
            (case take_at depth_km indices of Inl e \<Rightarrow> Inl e | Inr ys \<Rightarrow>
               batched_loop io d ks phase ecdist depth_km
                 (put result indices (map2 (io p) xs ys)))))
      else batched_loop io d ks phase ecdist depth_km result)"

text \<open>The \<open>except\<close> clause turns every exception into this one.\<close>

definition not_found :: "string \<Rightarrow> error" where
  "not_found model = ValueError (''Either model '' @ model @ '' or phase not found..'')"

text \<open>
  The body that the three functions share. It returns the answer or the error, and the
  object after the call: the read of \<open>self.phases[model]\<close> may have stored a new key.
  \<open>np.ones(len(phase), dtype='f4') * self.fill_value\<close> is an array of 32-bit floats, each
  the fill value rounded.
\<close>

definition get_with ::
  "(Phase \<Rightarrow> interpolant) \<Rightarrow> TTInterpolator \<Rightarrow> query \<Rightarrow> string
     \<Rightarrow> (error + answer) \<times> TTInterpolator" where
  "get_with io tt q model =
     (let (d, r) = phases_get (phases tt) model; tt' = tt\<lparr>phases := r\<rparr> in
      case q of
        Batched phase ecdist depth_km \<Rightarrow>
          (case batched_loop io d (keys d) phase ecdist depth_km
                  (replicate (length phase) (f4 (fill_value tt))) of
             Inl e \<Rightarrow> (Inl (not_found model), tt')
           | Inr result \<Rightarrow> (Inr (Array result), tt'))
      | Scalar phase ecdist depth_km \<Rightarrow>
          (case map_of d phase of
             Some p \<Rightarrow> (Inr (Value (io p ecdist depth_km)), tt')
           | None \<Rightarrow> (Inr (Value (fill_value tt)), tt')))"

definition get_tt :: "TTInterpolator \<Rightarrow> query \<Rightarrow> string \<Rightarrow> (error + answer) \<times> TTInterpolator" where
  "get_tt = get_with times_io"

definition get_dtdd :: "TTInterpolator \<Rightarrow> query \<Rightarrow> string \<Rightarrow> (error + answer) \<times> TTInterpolator" where
  "get_dtdd = get_with dtdd_io"

definition get_dtdh :: "TTInterpolator \<Rightarrow> query \<Rightarrow> string \<Rightarrow> (error + answer) \<times> TTInterpolator" where
  "get_dtdh = get_with dtdh_io"

subsection \<open>The phase registered for a model and a label\<close>

text \<open>
  What the registry holds for a pair of a model and a phase label: the phase that
  \<open>self.phases[model][phase]\<close> finds, or nothing.
\<close>

definition registered :: "TTInterpolator \<Rightarrow> string \<Rightarrow> label \<Rightarrow> Phase option" where
  "registered tt model phase =
     (case map_of (phases tt) model of None \<Rightarrow> None | Some d \<Rightarrow> map_of d phase)"

text \<open>
  The value of one slot of a batched answer: the interpolated value of the registered
  phase, or the fill value, rounded to 32 bits.
\<close>

definition slot ::
  "(Phase \<Rightarrow> interpolant) \<Rightarrow> TTInterpolator \<Rightarrow> string \<Rightarrow> label \<Rightarrow> pyfloat \<Rightarrow> pyfloat \<Rightarrow> pyfloat" where
  "slot io tt model phase x y =
     (case registered tt model phase of
        None \<Rightarrow> f4 (fill_value tt)
      | Some p \<Rightarrow> f4 (io p x y))"

subsection \<open>What the array checks test\<close>

text \<open>
  Names for the tests of lines 91 to 102: rows of one length, shapes that numpy can
  broadcast against each other, NaN masks that are equal under that broadcasting; and a
  line with a token that the conversion refuses.
\<close>

definition rectangular :: "'a list list \<Rightarrow> bool" where
  "rectangular rows = list_all (\<lambda>r. length r = length (hd rows)) rows"

definition comparable :: "'a list list \<Rightarrow> 'b list list \<Rightarrow> bool" where
  "comparable x y =
     (bdim (fst (bshape x)) (fst (bshape y)) \<noteq> None \<and>
      bdim (snd (bshape x)) (snd (bshape y)) \<noteq> None)"

definition masks_agree :: "pyfloat list list \<Rightarrow> pyfloat list list \<Rightarrow> bool" where
  "masks_agree x y = (np_all_eq (np_isnan x) (np_isnan y) = Inr True)"

definition refused :: "float_parser \<Rightarrow> string \<Rightarrow> bool" where
  "refused pf line = list_ex (\<lambda>item. item \<noteq> [] \<and> pf item = None) (py_split line)"

section \<open>Examples\<close>

subsection \<open>A conversion of plain decimal tokens, to run the parser on example files\<close>

text \<open>
  The theorems below hold for every conversion \<open>pf\<close>. To evaluate the parser on a
  concrete file, \<open>dec_float\<close> converts the tokens that real tables consist of: an optional
  minus sign, digits, and an optional fraction after a point. Where such a token denotes
  a number that a double holds exactly, as every token of the examples does, it agrees
  with Python's \<open>float\<close>; every other kind of token is refused.
\<close>

definition is_digit :: "char \<Rightarrow> bool" where
  "is_digit c = (48 \<le> (of_char c :: int) \<and> (of_char c :: int) \<le> 57)"

fun digits_val :: "string \<Rightarrow> int \<Rightarrow> int option" where
  "digits_val [] acc = Some acc"
| "digits_val (c # cs) acc =
     (if is_digit c then digits_val cs (10 * acc + ((of_char c :: int) - 48)) else None)"

definition decimal :: "string \<Rightarrow> real option" where
  "decimal s =
     (let ip = takeWhile (\<lambda>c. c \<noteq> CHR ''.'') s;
          fp = drop 1 (dropWhile (\<lambda>c. c \<noteq> CHR ''.'') s)
      in if ip = [] \<and> fp = [] then None
         else (case (digits_val ip 0, digits_val fp 0) of
                 (Some i, Some f) \<Rightarrow> Some (of_int i + of_int f / 10 ^ length fp)
               | _ \<Rightarrow> None))"

definition dec_float :: float_parser where
  "dec_float s =
     (case s of
        [] \<Rightarrow> None
      | c # cs \<Rightarrow> (if c = CHR ''-'' then map_option (\<lambda>r. Num (- r)) (decimal cs)
                   else map_option Num (decimal s)))"

subsection \<open>Example files\<close>

text \<open>A table with all five markers in their order, the dtdh marker on the last line.\<close>

definition table_dtdh_marker_last :: "string list" where
  "table_dtdh_marker_last =
     [''# delta samples'', ''1.0'', ''# depth samples'', ''5.0'', ''#'',
      ''# travel times (rows - delta, columns - depth)'', ''#'', ''10.0'', ''#'',
      ''# dtdd (rows - delta, columns - depth)'', ''#'', ''2.0'', ''#'',
      ''# dtdh (rows - delta, columns - depth)'']"

text \<open>A table whose \<open># delta samples\<close> marker is missing.\<close>

definition table_no_delta_marker :: "string list" where
  "table_no_delta_marker =
     [''0.0 1.0'', ''# depth samples'', ''5.0'', ''#'',
      ''# travel times (rows - delta, columns - depth)'', ''#'', ''10.0'', ''11.0'', ''#'',
      ''# dtdd (rows - delta, columns - depth)'', ''#'', ''2.0'', ''3.0'', ''#'',
      ''# dtdh (rows - delta, columns - depth)'', ''#'', ''4.0'', ''5.0'', ''#'', ''#'', ''#'']"

text \<open>
  A table whose time grid has the sentinel where the dtdd and dtdh grids have numbers.
\<close>

definition table_nan_mismatch :: "string list" where
  "table_nan_mismatch =
     [''# delta samples'', ''1.0'', ''# depth samples'', ''5.0'', ''#'',
      ''# travel times (rows - delta, columns - depth)'', ''#'', ''-999.0'', ''#'',
      ''# dtdd (rows - delta, columns - depth)'', ''#'', ''2.0'', ''#'',
      ''# dtdh (rows - delta, columns - depth)'', ''#'', ''3.0'', ''#'', ''#'', ''#'']"

text \<open>A table with two rows of times and of dtdh, and one row of dtdd.\<close>

definition table_rows_differ :: "string list" where
  "table_rows_differ =
     [''# delta samples'', ''1.0 2.0'', ''# depth samples'', ''5.0 6.0'', ''#'',
      ''# travel times (rows - delta, columns - depth)'', ''#'',
      ''-999.0 10.0'', ''-999.0 11.0'', ''#'',
      ''# dtdd (rows - delta, columns - depth)'', ''#'', ''-999.0 3.0'', ''#'',
      ''# dtdh (rows - delta, columns - depth)'', ''#'',
      ''-999.0 4.0'', ''-999.0 5.0'', ''#'', ''#'', ''#'']"

text \<open>Two paths that hold the same mismatched table.\<close>

definition files_mismatch :: files where
  "files_mismatch = map_of [(''tt/ak135.P.tab'', table_nan_mismatch),
                            (''tt/ak135.S.tab'', table_nan_mismatch)]"

text \<open>A table with the sentinel in the same cell of all three grids.\<close>

definition table_nan_agree :: "string list" where
  "table_nan_agree =
     [''# delta samples'', ''1.0 2.0'', ''# depth samples'', ''5.0'', ''#'',
      ''# travel times (rows - delta, columns - depth)'', ''#'', ''-999.0'', ''16777217.0'', ''#'',
      ''# dtdd (rows - delta, columns - depth)'', ''#'', ''-999.0'', ''2.0'', ''#'',
      ''# dtdh (rows - delta, columns - depth)'', ''#'', ''-999.0'', ''3.0'', ''#'', ''#'', ''#'']"

definition files_agree :: files where
  "files_agree = map_of [(''tt/ak135.P.tab'', table_nan_agree)]"

text \<open>What the second pass collects from \<open>table_nan_agree\<close>.\<close>

definition sections_agree :: sections where
  "sections_agree =
     \<lparr> sec_ecdists = [Num 1, Num 2], sec_depths_km = [Num 5],
       sec_times = [[Num (- 999)], [Num 16777217]], sec_dtdd = [[Num (- 999)], [Num 2]],
       sec_dtdh = [[Num (- 999)], [Num 3]] \<rparr>"

subsection \<open>Example registries\<close>

text \<open>
  To run the construction on example files, \<open>at_samples\<close> stands for the library's
  interpolator: its interpolant answers the value of a sample at the point of that
  sample, as every interpolant does, and the fill value everywhere else.
\<close>

definition at_samples :: "(pyfloat \<times> pyfloat) list \<Rightarrow> pyfloat list \<Rightarrow> pyfloat \<Rightarrow> interpolant" where
  "at_samples pts vals fv = (\<lambda>x y. case map_of (zip pts vals) (x, y) of Some v \<Rightarrow> v | None \<Rightarrow> fv)"


text \<open>The phase and the registry that \<open>table_nan_agree\<close>, stored as \<open>ak135.P.tab\<close>, gives.\<close>

definition phase_P :: Phase where
  "phase_P =
     \<lparr> ecdists = [Num 1, Num 2], depths_km = [Num 5],
       times = [[NaN], [Num 16777217]], dtdd = [[NaN], [Num 2]], dtdh = [[NaN], [Num 3]],
       p_fill_value = LARGE_VALUE,
       times_io = at_samples [(Num 2, Num 5)] [Num 16777217] LARGE_VALUE,
       dtdd_io = at_samples [(Num 2, Num 5)] [Num 2] LARGE_VALUE,
       dtdh_io = at_samples [(Num 2, Num 5)] [Num 3] LARGE_VALUE \<rparr>"

definition tt_P :: TTInterpolator where
  "tt_P = \<lparr> fill_value = LARGE_VALUE, phases = [(''ak135'', [(Bytes ''P'', phase_P)])] \<rparr>"

text \<open>The registry of an empty table folder.\<close>

definition tt_empty :: TTInterpolator where
  "tt_empty = \<lparr> fill_value = LARGE_VALUE, phases = [] \<rparr>"

section \<open>Properties of the parser\<close>

subsection \<open>The boundaries after the first pass\<close>

lemma mark_line_not_marker: "\<not> marker_line line \<Longrightarrow> mark_line line ind b = b"
  by (simp add: marker_line_def mark_line_def Let_def)

lemma mark_line_ends:
  assumes "dists_end b \<le> B" "depths_end b \<le> B" "times_end b \<le> B" "dtdd_end b \<le> B"
    and "marker_line line \<longrightarrow> ind \<le> B + 1"
  shows "dists_end (mark_line line ind b) \<le> B \<and> depths_end (mark_line line ind b) \<le> B \<and>
         times_end (mark_line line ind b) \<le> B \<and> dtdd_end (mark_line line ind b) \<le> B"
proof (cases "marker_line line")
  case False
  then show ?thesis using assms by (simp add: mark_line_not_marker)
next
  case True
  with assms have "ind \<le> B + 1" by simp
  with assms show ?thesis by (simp add: mark_line_def Let_def)
qed

lemma scan_markers_ends:
  "dists_end b \<le> B \<Longrightarrow> depths_end b \<le> B \<Longrightarrow> times_end b \<le> B \<Longrightarrow> dtdd_end b \<le> B \<Longrightarrow>
   (\<forall>k < length ls. marker_line (ls ! k) \<longrightarrow> ind + int k \<le> B + 1) \<Longrightarrow>
   dists_end (scan_markers ls ind b) \<le> B \<and> depths_end (scan_markers ls ind b) \<le> B \<and>
   times_end (scan_markers ls ind b) \<le> B \<and> dtdd_end (scan_markers ls ind b) \<le> B"
proof (induction ls arbitrary: ind b)
  case Nil
  then show ?case by simp
next
  case (Cons line ls)
  from Cons.prems(5) have h0: "marker_line line \<longrightarrow> ind \<le> B + 1" by fastforce
  have step: "dists_end (mark_line line ind b) \<le> B \<and> depths_end (mark_line line ind b) \<le> B \<and>
         times_end (mark_line line ind b) \<le> B \<and> dtdd_end (mark_line line ind b) \<le> B"
    using mark_line_ends [OF Cons.prems(1-4) h0] .
  have rest: "\<forall>k < length ls. marker_line (ls ! k) \<longrightarrow> (ind + 1) + int k \<le> B + 1"
  proof (intro allI impI)
    fix k assume "k < length ls" "marker_line (ls ! k)"
    with Cons.prems(5) have "ind + int (Suc k) \<le> B + 1" by fastforce
    then show "(ind + 1) + int k \<le> B + 1" by simp
  qed
  from step rest show ?case
    using Cons.IH [of "mark_line line ind b" "ind + 1"] by simp
qed

lemma dtdh_end_find_bounds: "dtdh_end (find_bounds lines) = int (length lines) - 4"
  by (simp add: find_bounds_def)

lemma find_bounds_other:
  "dists_start (find_bounds lines) = dists_start (scan_markers lines 0 bounds0)"
  "dists_end (find_bounds lines) = dists_end (scan_markers lines 0 bounds0)"
  "depths_start (find_bounds lines) = depths_start (scan_markers lines 0 bounds0)"
  "depths_end (find_bounds lines) = depths_end (scan_markers lines 0 bounds0)"
  "times_start (find_bounds lines) = times_start (scan_markers lines 0 bounds0)"
  "times_end (find_bounds lines) = times_end (scan_markers lines 0 bounds0)"
  "dtdd_start (find_bounds lines) = dtdd_start (scan_markers lines 0 bounds0)"
  "dtdd_end (find_bounds lines) = dtdd_end (scan_markers lines 0 bounds0)"
  "dtdh_start (find_bounds lines) = dtdh_start (scan_markers lines 0 bounds0)"
  by (simp_all add: find_bounds_def)

lemma not_dtdh_after_end:
  "dtdh_end b < ind \<Longrightarrow> section_of b ind \<noteq> Dtdh"
  by (simp add: section_of_def in_range_def)

lemma skipped_after_ends:
  "dists_end b < ind \<Longrightarrow> depths_end b < ind \<Longrightarrow> times_end b < ind \<Longrightarrow> dtdd_end b < ind \<Longrightarrow>
   dtdh_end b < ind \<Longrightarrow> section_of b ind = Skipped"
  by (simp add: section_of_def in_range_def)

text \<open>
  Claim C10, as the code has it. The dtdh section ends at index \<open>len(lines) - 4\<close>, so no
  line of the last three is ever a row of the dtdh matrix. The last three lines are
  skipped altogether when the file has at least four lines and neither of its last two
  lines is a marker line: then every other section ends before them as well.
\<close>

theorem last_lines_not_parsed:
  "dtdh_end (find_bounds lines) = int (length lines) - 4 \<and>
   (int (length lines) - 3 \<le> ind \<longrightarrow>
      section_of (find_bounds lines) ind \<noteq> Dtdh \<and>
      (4 \<le> length lines \<and> \<not> marker_line (lines ! (length lines - 1)) \<and>
       \<not> marker_line (lines ! (length lines - 2)) \<longrightarrow>
         section_of (find_bounds lines) ind = Skipped))"
proof (intro conjI impI)
  show "dtdh_end (find_bounds lines) = int (length lines) - 4"
    by (rule dtdh_end_find_bounds)
next
  assume "int (length lines) - 3 \<le> ind"
  then show "section_of (find_bounds lines) ind \<noteq> Dtdh"
    by (intro not_dtdh_after_end) (simp add: dtdh_end_find_bounds)
next
  assume i: "int (length lines) - 3 \<le> ind"
    and w: "4 \<le> length lines \<and> \<not> marker_line (lines ! (length lines - 1)) \<and>
       \<not> marker_line (lines ! (length lines - 2))"
  define B where "B = int (length lines) - 4"
  have B0: "0 \<le> B" using w by (simp add: B_def)
  have mk: "\<forall>k < length lines. marker_line (lines ! k) \<longrightarrow> 0 + int k \<le> B + 1"
  proof (intro allI impI)
    fix k assume k: "k < length lines" and m: "marker_line (lines ! k)"
    have "k \<noteq> length lines - 1" "k \<noteq> length lines - 2" using m w by auto
    with k show "0 + int k \<le> B + 1" by (simp add: B_def)
  qed
  have "dists_end (scan_markers lines 0 bounds0) \<le> B \<and>
        depths_end (scan_markers lines 0 bounds0) \<le> B \<and>
        times_end (scan_markers lines 0 bounds0) \<le> B \<and>
        dtdd_end (scan_markers lines 0 bounds0) \<le> B"
    by (rule scan_markers_ends [OF _ _ _ _ mk]) (simp_all add: bounds0_def B0)
  then show "section_of (find_bounds lines) ind = Skipped"
    using i by (intro skipped_after_ends) (simp_all add: find_bounds_other dtdh_end_find_bounds B_def)
qed

theorem last_lines_not_parsed_witness:
  "int (length table_no_delta_marker) - 3 \<le> 18 \<and> 4 \<le> length table_no_delta_marker \<and>
   \<not> marker_line (table_no_delta_marker ! (length table_no_delta_marker - 1)) \<and>
   \<not> marker_line (table_no_delta_marker ! (length table_no_delta_marker - 2)) \<and>
   dtdh_end (find_bounds table_no_delta_marker) = 17 \<and>
   section_of (find_bounds table_no_delta_marker) 18 \<noteq> Dtdh \<and>
   section_of (find_bounds table_no_delta_marker) 18 = Skipped"
proof -
  have h: "int (length table_no_delta_marker) - 3 \<le> 18 \<and> 4 \<le> length table_no_delta_marker \<and>
   \<not> marker_line (table_no_delta_marker ! (length table_no_delta_marker - 1)) \<and>
   \<not> marker_line (table_no_delta_marker ! (length table_no_delta_marker - 2))"
    by code_simp
  have n: "int (length table_no_delta_marker) - 4 = 17"
    by code_simp
  from h n show ?thesis
    using last_lines_not_parsed [of table_no_delta_marker 18] by simp
qed

text \<open>
  The claim as it is written fails: in a table with all five markers whose dtdh marker is
  the last line, line \<open>len(lines) - 3\<close> is parsed as a row of the dtdd matrix; and the only
  line of a one-line file is parsed as distance samples.
\<close>

theorem last_lines_parsed_counterexample:
  "length table_dtdh_marker_last = 14 \<and>
   section_of (find_bounds table_dtdh_marker_last) 11 = Dtdd \<and>
   parse_lines dec_float nanval_default table_dtdh_marker_last =
     Inr \<lparr> ecdists = [Num 1], depths_km = [Num 5], times = [[Num 10]],
           dtdd = [[Num 2]], dtdh = [] \<rparr> \<and>
   section_of (find_bounds [''1.0'']) 0 = Dists \<and>
   parse_lines dec_float nanval_default [''1.0''] =
     Inr \<lparr> ecdists = [Num 1], depths_km = [], times = [], dtdd = [], dtdh = [] \<rparr>"
  by code_simp

subsection \<open>Missing markers\<close>

lemma has_marker_Cons:
  "has_marker m (line # ls) = (py_join (py_split line) = m \<or> has_marker m ls)"
  by (simp add: has_marker_def)

lemma mark_line_keeps:
  "py_join (py_split line) \<noteq> delta_marker \<Longrightarrow> dists_start (mark_line line ind b) = dists_start b"
  "py_join (py_split line) \<noteq> depth_marker \<Longrightarrow>
     dists_end (mark_line line ind b) = dists_end b \<and> depths_start (mark_line line ind b) = depths_start b"
  "py_join (py_split line) \<noteq> times_marker \<Longrightarrow>
     depths_end (mark_line line ind b) = depths_end b \<and> times_start (mark_line line ind b) = times_start b"
  "py_join (py_split line) \<noteq> dtdd_marker \<Longrightarrow>
     times_end (mark_line line ind b) = times_end b \<and> dtdd_start (mark_line line ind b) = dtdd_start b"
  "py_join (py_split line) \<noteq> dtdh_marker \<Longrightarrow>
     dtdd_end (mark_line line ind b) = dtdd_end b \<and> dtdh_start (mark_line line ind b) = dtdh_start b"
  by (simp_all add: mark_line_def Let_def)

lemma scan_keeps_delta:
  "\<not> has_marker delta_marker ls \<Longrightarrow> dists_start (scan_markers ls ind b) = dists_start b"
  by (induction ls arbitrary: ind b) (simp_all add: has_marker_Cons mark_line_keeps has_marker_def)

lemma scan_keeps_depth:
  "\<not> has_marker depth_marker ls \<Longrightarrow>
   dists_end (scan_markers ls ind b) = dists_end b \<and> depths_start (scan_markers ls ind b) = depths_start b"
  by (induction ls arbitrary: ind b) (simp_all add: has_marker_Cons mark_line_keeps has_marker_def)

lemma scan_keeps_times:
  "\<not> has_marker times_marker ls \<Longrightarrow>
   depths_end (scan_markers ls ind b) = depths_end b \<and> times_start (scan_markers ls ind b) = times_start b"
  by (induction ls arbitrary: ind b) (simp_all add: has_marker_Cons mark_line_keeps has_marker_def)

lemma scan_keeps_dtdd:
  "\<not> has_marker dtdd_marker ls \<Longrightarrow>
   times_end (scan_markers ls ind b) = times_end b \<and> dtdd_start (scan_markers ls ind b) = dtdd_start b"
  by (induction ls arbitrary: ind b) (simp_all add: has_marker_Cons mark_line_keeps has_marker_def)

lemma scan_keeps_dtdh:
  "\<not> has_marker dtdh_marker ls \<Longrightarrow>
   dtdd_end (scan_markers ls ind b) = dtdd_end b \<and> dtdh_start (scan_markers ls ind b) = dtdh_start b"
  by (induction ls arbitrary: ind b) (simp_all add: has_marker_Cons mark_line_keeps has_marker_def)

subsection \<open>The check of the NaN masks\<close>

lemma bshape_same:
  assumes "map length x = map length y"
  shows "bshape x = bshape y"
proof (cases x)
  case Nil
  with assms show ?thesis by (simp add: bshape_def)
next
  case (Cons r rs)
  with assms obtain r' rs' where "y = r' # rs'" "length r = length r'" "length rs = length rs'"
    by (cases y) (auto dest: map_eq_imp_length_eq)
  with Cons show ?thesis by (simp add: bshape_def)
qed

lemma bdim_same: "bdim n n = Some n"
  by (simp add: bdim_def)

lemma bget_inside:
  "i < fst (bshape a) \<Longrightarrow> j < snd (bshape a) \<Longrightarrow> bget a i j = a ! i ! j"
  by (auto simp: bget_def)

lemma rows_eq_iff:
  assumes rect: "list_all (\<lambda>r. length r = length (hd x)) x"
    and sh: "map length x = map length y"
  shows "(\<forall>i < fst (bshape x). \<forall>j < snd (bshape x). x ! i ! j = y ! i ! j) \<longleftrightarrow> x = y"
proof (cases "x = []")
  case True
  with sh show ?thesis by (simp add: bshape_def)
next
  case False
  have len: "length x = length y" using sh by (rule map_eq_imp_length_eq)
  have rowlen: "length (x ! i) = length (hd x)" if "i < length x" for i
    using rect that by (simp add: list_all_length)
  have rowlen': "length (y ! i) = length (x ! i)" if "i < length x" for i
  proof -
    have "map length y ! i = map length x ! i" using sh by simp
    with that len show ?thesis by simp
  qed
  have sx: "bshape x = (length x, length (hd x))" using False by (simp add: bshape_def)
  show ?thesis
  proof
    assume a: "\<forall>i < fst (bshape x). \<forall>j < snd (bshape x). x ! i ! j = y ! i ! j"
    show "x = y"
    proof (rule nth_equalityI [OF len])
      fix i assume i: "i < length x"
      show "x ! i = y ! i"
      proof (rule nth_equalityI)
        show "length (x ! i) = length (y ! i)" using rowlen' [OF i] by simp
      next
        fix j assume "j < length (x ! i)"
        with i a show "x ! i ! j = y ! i ! j" by (simp add: sx rowlen)
      qed
    qed
  next
    assume "x = y" then show "\<forall>i < fst (bshape x). \<forall>j < snd (bshape x). x ! i ! j = y ! i ! j"
      by simp
  qed
qed

lemma np_all_eq_same_shape:
  assumes rect: "list_all (\<lambda>r. length r = length (hd x)) x"
    and sh: "map length x = map length y"
  shows "np_all_eq x y = Inr (x = y)"
proof -
  have s: "bshape y = bshape x" using bshape_same [OF sh] by simp
  have "list_all (\<lambda>i. list_all (\<lambda>j. bget x i j = bget y i j) [0..<snd (bshape x)])
          [0..<fst (bshape x)]
        \<longleftrightarrow> (\<forall>i < fst (bshape x). \<forall>j < snd (bshape x). x ! i ! j = y ! i ! j)"
    using bget_inside [of _ x] bget_inside [of _ y] s by (auto simp add: list_all_iff)
  also have "\<dots> \<longleftrightarrow> x = y" by (rule rows_eq_iff [OF rect sh])
  finally show ?thesis by (simp add: np_all_eq_def s bdim_same)
qed


lemma rect_transfer:
  assumes rect: "list_all (\<lambda>r. length r = length (hd x)) x"
    and sh: "map length y = map length x"
  shows "list_all (\<lambda>r. length r = length (hd y)) y"
proof -
  have len: "length y = length x" using sh by (rule map_eq_imp_length_eq)
  have row: "length (y ! i) = length (hd x)" if "i < length y" for i
  proof -
    have "map length y ! i = map length x ! i" using sh by simp
    with that len have "length (y ! i) = length (x ! i)" by simp
    with rect that len show ?thesis by (simp add: list_all_length)
  qed
  show ?thesis
  proof (cases y)
    case Nil
    then show ?thesis by simp
  next
    case (Cons r rs)
    then have "length (hd y) = length (hd x)" using row [of 0] by simp
    with row show ?thesis by (simp add: list_all_length)
  qed
qed

lemma map_length_mask_nan: "map length (mask_nan v a) = map length a"
  by (simp add: mask_nan_def)

lemma map_length_np_isnan: "map length (np_isnan a) = map length a"
  by (simp add: np_isnan_def)

lemma np_array_rect: "list_all (\<lambda>r. length r = length (hd a)) a \<Longrightarrow> np_array a = Inr a"
  by (simp add: np_array_def)

lemma assert_same_nan_same_shape:
  assumes rect: "list_all (\<lambda>r. length r = length (hd x)) x"
    and sh: "map length y = map length x"
  shows "assert_same_nan (mask_nan v x) (mask_nan v y) =
     (if np_isnan (mask_nan v x) = np_isnan (mask_nan v y) then Inr () else Inl AssertionError)"
proof -
  have sh0: "map length (np_isnan (mask_nan v x)) = map length x"
    by (simp add: map_length_np_isnan map_length_mask_nan)
  have r: "list_all (\<lambda>r. length r = length (hd (np_isnan (mask_nan v x)))) (np_isnan (mask_nan v x))"
    by (rule rect_transfer [OF rect sh0])
  have s: "map length (np_isnan (mask_nan v x)) = map length (np_isnan (mask_nan v y))"
    using sh by (simp add: map_length_np_isnan map_length_mask_nan)
  show ?thesis
    by (simp add: assert_same_nan_def np_all_eq_same_shape [OF r s])
qed

text \<open>
  Claim C3, as the code has it. When the three matrix sections have the same rectangular
  shape, parsing succeeds exactly when the NaN masks agree after the sentinel is
  replaced, and then returns the collected grids with nothing but the sentinel changed;
  when the masks differ it fails with the bare assertion error, whatever the file is.
\<close>

theorem nan_mask_check:
  assumes "fs tt_fn = Some lines"
    and "collect pf (find_bounds lines) lines 0 sections0 = Inr s"
    and "list_all (\<lambda>r. length r = length (hd (sec_times s))) (sec_times s)"
    and "map length (sec_dtdd s) = map length (sec_times s)"
    and "map length (sec_dtdh s) = map length (sec_times s)"
  shows "parse_tt pf fs tt_fn nanval =
     (if np_isnan (mask_nan nanval (sec_times s)) = np_isnan (mask_nan nanval (sec_dtdd s)) \<and>
         np_isnan (mask_nan nanval (sec_times s)) = np_isnan (mask_nan nanval (sec_dtdh s))
      then Inr \<lparr> ecdists = sec_ecdists s, depths_km = sec_depths_km s,
                 times = mask_nan nanval (sec_times s), dtdd = mask_nan nanval (sec_dtdd s),
                 dtdh = mask_nan nanval (sec_dtdh s) \<rparr>
      else Inl AssertionError)"
proof -
  have at: "np_array (sec_times s) = Inr (sec_times s)"
    by (rule np_array_rect [OF assms(3)])
  have ad: "np_array (sec_dtdd s) = Inr (sec_dtdd s)"
    by (rule np_array_rect [OF rect_transfer [OF assms(3) assms(4)]])
  have ah: "np_array (sec_dtdh s) = Inr (sec_dtdh s)"
    by (rule np_array_rect [OF rect_transfer [OF assms(3) assms(5)]])
  show ?thesis
    by (simp add: parse_tt_def parse_lines_def make_grids_def assms(1) assms(2) at ad ah Let_def
        assert_same_nan_same_shape [OF assms(3) assms(4)]
        assert_same_nan_same_shape [OF assms(3) assms(5)])
qed

theorem nan_mask_check_witness:
  "files_agree ''tt/ak135.P.tab'' = Some table_nan_agree \<and>
   collect dec_float (find_bounds table_nan_agree) table_nan_agree 0 sections0 =
     Inr sections_agree \<and>
   list_all (\<lambda>r. length r = length (hd (sec_times sections_agree))) (sec_times sections_agree) \<and>
   map length (sec_dtdd sections_agree) = map length (sec_times sections_agree) \<and>
   map length (sec_dtdh sections_agree) = map length (sec_times sections_agree) \<and>
   parse_tt dec_float files_agree ''tt/ak135.P.tab'' nanval_default =
     Inr \<lparr> ecdists = [Num 1, Num 2], depths_km = [Num 5],
           times = [[NaN], [Num 16777217]], dtdd = [[NaN], [Num 2]], dtdh = [[NaN], [Num 3]] \<rparr>"
proof -
  have f: "files_agree ''tt/ak135.P.tab'' = Some table_nan_agree"
    by (simp add: files_agree_def)
  have c: "collect dec_float (find_bounds table_nan_agree) table_nan_agree 0 sections0 =
     Inr sections_agree"
    by code_simp
  have r: "list_all (\<lambda>r. length r = length (hd (sec_times sections_agree)))
      (sec_times sections_agree)"
    by (simp add: sections_agree_def)
  have d: "map length (sec_dtdd sections_agree) = map length (sec_times sections_agree)"
    by (simp add: sections_agree_def)
  have h: "map length (sec_dtdh sections_agree) = map length (sec_times sections_agree)"
    by (simp add: sections_agree_def)
  show ?thesis
    using nan_mask_check [of files_agree "''tt/ak135.P.tab''" table_nan_agree dec_float sections_agree nanval_default, OF f c r d h] f c r d h
    by (simp add: mask_nan_def np_isnan_def nanval_default_def sections_agree_def)
qed

text \<open>
  The claim as it is written fails twice. The error for differing masks is the bare
  assertion error, the same for two different paths, so it does not identify the file.
  And the comparison of the masks broadcasts: a table with two rows of times and one row
  of dtdd parses although the undefined cells of the two grids are not the same.
\<close>

theorem nan_mask_check_counterexample:
  "parse_tt dec_float files_mismatch ''tt/ak135.P.tab'' nanval_default = Inl AssertionError \<and>
   parse_tt dec_float files_mismatch ''tt/ak135.S.tab'' nanval_default = Inl AssertionError \<and>
   parse_lines dec_float nanval_default table_rows_differ =
     Inr \<lparr> ecdists = [Num 1, Num 2], depths_km = [Num 5, Num 6],
           times = [[NaN, Num 10], [NaN, Num 11]], dtdd = [[NaN, Num 3]],
           dtdh = [[NaN, Num 4], [NaN, Num 5]] \<rparr> \<and>
   np_isnan [[NaN, Num 10], [NaN, Num 11]] \<noteq> np_isnan [[NaN, Num 3]]"
  by code_simp

subsection \<open>What makes parsing fail\<close>

lemma floats_fails:
  "floats pf row = Inl e \<Longrightarrow>
   \<exists>item \<in> set row. item \<noteq> [] \<and> pf item = None \<and>
     e = ValueError (''could not convert string to float: '' @ item)"
  by (induction row) (auto split: if_splits option.splits sum.splits)

lemma floats_refused:
  assumes "item \<in> set row" and "item \<noteq> []" and "pf item = None"
  shows "\<exists>e. floats pf row = Inl e"
  using assms
proof (induction row)
  case Nil
  then show ?case by simp
next
  case (Cons a row)
  show ?case
  proof (cases "a = item")
    case True
    with Cons.prems show ?thesis by simp
  next
    case False
    with Cons.prems have "item \<in> set row" by simp
    from Cons.IH [OF this Cons.prems(2) Cons.prems(3)] obtain e where "floats pf row = Inl e" ..
    then show ?thesis by (simp split: option.splits)
  qed
qed

lemma collect_line_fails:
  "collect_line pf b line ind s = Inl e \<Longrightarrow>
   section_of b ind \<noteq> Skipped \<and>
   (\<exists>item \<in> set (py_split line). item \<noteq> [] \<and> pf item = None \<and>
      e = ValueError (''could not convert string to float: '' @ item))"
  by (auto simp: collect_line_def Let_def split: sect.splits sum.splits dest: floats_fails)

lemma collect_line_refused:
  assumes "section_of b ind \<noteq> Skipped" and "refused pf line"
  shows "\<exists>e. collect_line pf b line ind s = Inl e"
proof -
  from assms(2) obtain item where
    i: "item \<in> set (py_split line)" "item \<noteq> []" "pf item = None"
    by (auto simp: refused_def list_ex_iff)
  from floats_refused [of item "py_split line" pf, OF i]
  obtain e where "floats pf (py_split line) = Inl e" ..
  with assms(1) show ?thesis
    by (cases "section_of b ind") (simp_all add: collect_line_def Let_def)
qed

lemma collect_fails:
  "collect pf b ls ind s = Inl e \<Longrightarrow>
   \<exists>k < length ls. section_of b (ind + int k) \<noteq> Skipped \<and>
     (\<exists>item \<in> set (py_split (ls ! k)). item \<noteq> [] \<and> pf item = None \<and>
        e = ValueError (''could not convert string to float: '' @ item))"
proof (induction ls arbitrary: ind s)
  case Nil
  then show ?case by simp
next
  case (Cons line ls)
  show ?case
  proof (cases "collect_line pf b line ind s")
    case (Inl e')
    with Cons.prems have "e' = e" by simp
    with Inl collect_line_fails [of pf b line ind s e]
    have "section_of b (ind + int 0) \<noteq> Skipped \<and>
     (\<exists>item \<in> set (py_split ((line # ls) ! 0)). item \<noteq> [] \<and> pf item = None \<and>
        e = ValueError (''could not convert string to float: '' @ item))"
      by simp
    then show ?thesis by (intro exI [of _ 0]) simp
  next
    case (Inr s')
    with Cons.prems have "collect pf b ls (ind + 1) s' = Inl e" by simp
    from Cons.IH [OF this] obtain k where
      k: "k < length ls" "section_of b (ind + 1 + int k) \<noteq> Skipped"
        "\<exists>item \<in> set (py_split (ls ! k)). item \<noteq> [] \<and> pf item = None \<and>
           e = ValueError (''could not convert string to float: '' @ item)"
      by blast
    have "ind + 1 + int k = ind + int (Suc k)" by simp
    with k show ?thesis by (intro exI [of _ "Suc k"]) simp
  qed
qed

lemma collect_refused:
  "\<exists>k < length ls. section_of b (ind + int k) \<noteq> Skipped \<and> refused pf (ls ! k) \<Longrightarrow>
   \<exists>e. collect pf b ls ind s = Inl e"
proof (induction ls arbitrary: ind s)
  case Nil
  then show ?case by simp
next
  case (Cons line ls)
  then obtain k where k: "k < length (line # ls)" "section_of b (ind + int k) \<noteq> Skipped"
    "refused pf ((line # ls) ! k)" by blast
  show ?case
  proof (cases "collect_line pf b line ind s")
    case (Inl e)
    then show ?thesis by simp
  next
    case (Inr s')
    have "k \<noteq> 0"
    proof
      assume "k = 0"
      with k collect_line_refused [of b ind pf line s] Inr show False by simp
    qed
    then obtain j where j: "k = Suc j" by (cases k) simp_all
    have s: "section_of b (ind + 1 + int j) \<noteq> Skipped" using k(2) j by (simp add: add.assoc)
    have r: "refused pf (ls ! j)" using k(3) j by simp
    have l: "j < length ls" using k(1) j by simp
    from l s r have "\<exists>j < length ls. section_of b (ind + 1 + int j) \<noteq> Skipped \<and> refused pf (ls ! j)"
      by blast
    from Cons.IH [OF this] Inr show ?thesis by simp
  qed
qed

lemma np_array_rectangular:
  "np_array rows = (if rectangular rows then Inr rows else Inl (ValueError ''inhomogeneous shape''))"
  by (simp add: np_array_def rectangular_def)

lemma bshape_np_isnan: "bshape (np_isnan a) = bshape a"
  by (rule bshape_same) (simp add: map_length_np_isnan)

lemma assert_same_nan_cases:
  "assert_same_nan x y =
     (if \<not> comparable x y then Inl (ValueError ''operands could not be broadcast together'')
      else if masks_agree x y then Inr () else Inl AssertionError)"
  by (auto simp: assert_same_nan_def np_all_eq_def comparable_def masks_agree_def
      bshape_np_isnan split: option.splits)

lemma make_grids_cases:
  "make_grids nanval s =
     (if \<not> rectangular (sec_times s) \<or> \<not> rectangular (sec_dtdd s) \<or> \<not> rectangular (sec_dtdh s)
      then Inl (ValueError ''inhomogeneous shape'')
      else if \<not> comparable (mask_nan nanval (sec_times s)) (mask_nan nanval (sec_dtdd s))
      then Inl (ValueError ''operands could not be broadcast together'')
      else if \<not> masks_agree (mask_nan nanval (sec_times s)) (mask_nan nanval (sec_dtdd s))
      then Inl AssertionError
      else if \<not> comparable (mask_nan nanval (sec_times s)) (mask_nan nanval (sec_dtdh s))
      then Inl (ValueError ''operands could not be broadcast together'')
      else if \<not> masks_agree (mask_nan nanval (sec_times s)) (mask_nan nanval (sec_dtdh s))
      then Inl AssertionError
      else Inr \<lparr> ecdists = sec_ecdists s, depths_km = sec_depths_km s,
                 times = mask_nan nanval (sec_times s), dtdd = mask_nan nanval (sec_dtdd s),
                 dtdh = mask_nan nanval (sec_dtdh s) \<rparr>)"
  by (simp add: make_grids_def np_array_rectangular assert_same_nan_cases Let_def)


text \<open>
  Claim C2, as the code has it. The parser has no check for a missing marker: the
  boundaries a marker would set keep their initial value zero, and the second pass reads
  the file with the boundaries so found. Parsing then fails exactly when a line that
  these boundaries select holds a token that \<open>float\<close> refuses, or the rows collected for a
  matrix have different lengths, or the NaN masks of the times and of the dtdd or the
  dtdh cannot be compared or differ; otherwise it returns the collected grids with the
  sentinel replaced.
\<close>

theorem missing_marker_keeps_zero:
  "(\<not> has_marker delta_marker lines \<longrightarrow> dists_start (find_bounds lines) = 0) \<and>
   (\<not> has_marker depth_marker lines \<longrightarrow>
      dists_end (find_bounds lines) = 0 \<and> depths_start (find_bounds lines) = 0) \<and>
   (\<not> has_marker times_marker lines \<longrightarrow>
      depths_end (find_bounds lines) = 0 \<and> times_start (find_bounds lines) = 0) \<and>
   (\<not> has_marker dtdd_marker lines \<longrightarrow>
      times_end (find_bounds lines) = 0 \<and> dtdd_start (find_bounds lines) = 0) \<and>
   (\<not> has_marker dtdh_marker lines \<longrightarrow>
      dtdd_end (find_bounds lines) = 0 \<and> dtdh_start (find_bounds lines) = 0) \<and>
   ((\<exists>e. collect pf (find_bounds lines) lines 0 sections0 = Inl e) \<longleftrightarrow>
      (\<exists>i < length lines. section_of (find_bounds lines) (int i) \<noteq> Skipped \<and>
         refused pf (lines ! i))) \<and>
   (collect pf (find_bounds lines) lines 0 sections0 = Inl e \<longrightarrow>
      (\<exists>item. item \<noteq> [] \<and> pf item = None \<and>
         e = ValueError (''could not convert string to float: '' @ item))) \<and>
   parse_lines pf nanval lines =
     (case collect pf (find_bounds lines) lines 0 sections0 of
        Inl e \<Rightarrow> Inl e
      | Inr s \<Rightarrow>
         (if \<not> rectangular (sec_times s) \<or> \<not> rectangular (sec_dtdd s) \<or>
             \<not> rectangular (sec_dtdh s)
          then Inl (ValueError ''inhomogeneous shape'')
          else if \<not> comparable (mask_nan nanval (sec_times s)) (mask_nan nanval (sec_dtdd s))
          then Inl (ValueError ''operands could not be broadcast together'')
          else if \<not> masks_agree (mask_nan nanval (sec_times s)) (mask_nan nanval (sec_dtdd s))
          then Inl AssertionError
          else if \<not> comparable (mask_nan nanval (sec_times s)) (mask_nan nanval (sec_dtdh s))
          then Inl (ValueError ''operands could not be broadcast together'')
          else if \<not> masks_agree (mask_nan nanval (sec_times s)) (mask_nan nanval (sec_dtdh s))
          then Inl AssertionError
          else Inr \<lparr> ecdists = sec_ecdists s, depths_km = sec_depths_km s,
                     times = mask_nan nanval (sec_times s),
                     dtdd = mask_nan nanval (sec_dtdd s),
                     dtdh = mask_nan nanval (sec_dtdh s) \<rparr>))"
proof -
  have zero: "(\<not> has_marker delta_marker lines \<longrightarrow> dists_start (find_bounds lines) = 0) \<and>
   (\<not> has_marker depth_marker lines \<longrightarrow>
      dists_end (find_bounds lines) = 0 \<and> depths_start (find_bounds lines) = 0) \<and>
   (\<not> has_marker times_marker lines \<longrightarrow>
      depths_end (find_bounds lines) = 0 \<and> times_start (find_bounds lines) = 0) \<and>
   (\<not> has_marker dtdd_marker lines \<longrightarrow>
      times_end (find_bounds lines) = 0 \<and> dtdd_start (find_bounds lines) = 0) \<and>
   (\<not> has_marker dtdh_marker lines \<longrightarrow>
      dtdd_end (find_bounds lines) = 0 \<and> dtdh_start (find_bounds lines) = 0)"
    by (simp add: find_bounds_other scan_keeps_delta scan_keeps_depth scan_keeps_times
        scan_keeps_dtdd scan_keeps_dtdh bounds0_def)
  have iff: "(\<exists>e. collect pf (find_bounds lines) lines 0 sections0 = Inl e) \<longleftrightarrow>
      (\<exists>i < length lines. section_of (find_bounds lines) (int i) \<noteq> Skipped \<and>
         refused pf (lines ! i))"
  proof
    assume "\<exists>e. collect pf (find_bounds lines) lines 0 sections0 = Inl e"
    then obtain e' where "collect pf (find_bounds lines) lines 0 sections0 = Inl e'" ..
    from collect_fails [OF this] obtain k where
      "k < length lines" "section_of (find_bounds lines) (0 + int k) \<noteq> Skipped"
      "\<exists>item \<in> set (py_split (lines ! k)). item \<noteq> [] \<and> pf item = None \<and>
         e' = ValueError (''could not convert string to float: '' @ item)"
      by blast
    then show "\<exists>i < length lines. section_of (find_bounds lines) (int i) \<noteq> Skipped \<and>
         refused pf (lines ! i)"
      by (intro exI [of _ k]) (auto simp: refused_def list_ex_iff)
  next
    assume "\<exists>i < length lines. section_of (find_bounds lines) (int i) \<noteq> Skipped \<and>
         refused pf (lines ! i)"
    then have "\<exists>k < length lines. section_of (find_bounds lines) (0 + int k) \<noteq> Skipped \<and>
         refused pf (lines ! k)"
      by simp
    from collect_refused [OF this]
    show "\<exists>e. collect pf (find_bounds lines) lines 0 sections0 = Inl e" .
  qed
  have err: "collect pf (find_bounds lines) lines 0 sections0 = Inl e \<longrightarrow>
      (\<exists>item. item \<noteq> [] \<and> pf item = None \<and>
         e = ValueError (''could not convert string to float: '' @ item))"
    using collect_fails [of pf "find_bounds lines" lines 0 sections0 e] by blast
  have res: "parse_lines pf nanval lines =
     (case collect pf (find_bounds lines) lines 0 sections0 of
        Inl e \<Rightarrow> Inl e
      | Inr s \<Rightarrow>
         (if \<not> rectangular (sec_times s) \<or> \<not> rectangular (sec_dtdd s) \<or>
             \<not> rectangular (sec_dtdh s)
          then Inl (ValueError ''inhomogeneous shape'')
          else if \<not> comparable (mask_nan nanval (sec_times s)) (mask_nan nanval (sec_dtdd s))
          then Inl (ValueError ''operands could not be broadcast together'')
          else if \<not> masks_agree (mask_nan nanval (sec_times s)) (mask_nan nanval (sec_dtdd s))
          then Inl AssertionError
          else if \<not> comparable (mask_nan nanval (sec_times s)) (mask_nan nanval (sec_dtdh s))
          then Inl (ValueError ''operands could not be broadcast together'')
          else if \<not> masks_agree (mask_nan nanval (sec_times s)) (mask_nan nanval (sec_dtdh s))
          then Inl AssertionError
          else Inr \<lparr> ecdists = sec_ecdists s, depths_km = sec_depths_km s,
                     times = mask_nan nanval (sec_times s),
                     dtdd = mask_nan nanval (sec_dtdd s),
                     dtdh = mask_nan nanval (sec_dtdh s) \<rparr>))"
    by (simp add: parse_lines_def make_grids_cases split: sum.splits)
  from zero iff err res show ?thesis by blast
qed

theorem missing_marker_keeps_zero_witness:
  "\<not> has_marker delta_marker [''0.0 1.0'', ''5.0''] \<and>
   \<not> has_marker depth_marker [''0.0 1.0'', ''5.0''] \<and>
   \<not> has_marker times_marker [''0.0 1.0'', ''5.0''] \<and>
   \<not> has_marker dtdd_marker [''0.0 1.0'', ''5.0''] \<and>
   \<not> has_marker dtdh_marker [''0.0 1.0'', ''5.0''] \<and>
   dists_start (find_bounds [''0.0 1.0'', ''5.0'']) = 0 \<and>
   dists_end (find_bounds [''0.0 1.0'', ''5.0'']) = 0 \<and>
   depths_start (find_bounds [''0.0 1.0'', ''5.0'']) = 0 \<and>
   depths_end (find_bounds [''0.0 1.0'', ''5.0'']) = 0 \<and>
   times_start (find_bounds [''0.0 1.0'', ''5.0'']) = 0 \<and>
   times_end (find_bounds [''0.0 1.0'', ''5.0'']) = 0 \<and>
   dtdd_start (find_bounds [''0.0 1.0'', ''5.0'']) = 0 \<and>
   dtdd_end (find_bounds [''0.0 1.0'', ''5.0'']) = 0 \<and>
   dtdh_start (find_bounds [''0.0 1.0'', ''5.0'']) = 0 \<and>
   parse_lines dec_float nanval_default [''0.0 1.0'', ''5.0''] =
     Inr \<lparr> ecdists = [Num 0, Num 1], depths_km = [], times = [], dtdd = [], dtdh = [] \<rparr> \<and>
   collect dec_float (find_bounds [''0.0 x'', ''5.0'']) [''0.0 x'', ''5.0''] 0 sections0 =
     Inl (ValueError ''could not convert string to float: x'') \<and>
   section_of (find_bounds [''0.0 x'', ''5.0'']) (int 0) \<noteq> Skipped \<and>
   refused dec_float ([''0.0 x'', ''5.0''] ! 0) \<and>
   parse_lines dec_float nanval_default [''0.0 x'', ''5.0''] =
     Inl (ValueError ''could not convert string to float: x'')"
proof -
  have h: "\<not> has_marker delta_marker [''0.0 1.0'', ''5.0''] \<and>
   \<not> has_marker depth_marker [''0.0 1.0'', ''5.0''] \<and>
   \<not> has_marker times_marker [''0.0 1.0'', ''5.0''] \<and>
   \<not> has_marker dtdd_marker [''0.0 1.0'', ''5.0''] \<and>
   \<not> has_marker dtdh_marker [''0.0 1.0'', ''5.0'']"
    by code_simp
  have c: "collect dec_float (find_bounds [''0.0 1.0'', ''5.0'']) [''0.0 1.0'', ''5.0''] 0 sections0 =
     Inr \<lparr> sec_ecdists = [Num 0, Num 1], sec_depths_km = [], sec_times = [], sec_dtdd = [],
           sec_dtdh = [] \<rparr>"
    by code_simp
  have a: "rectangular ([] :: pyfloat list list)" "comparable ([] :: pyfloat list list) ([] :: pyfloat list list)"
    "masks_agree [] []" "mask_nan nanval_default [] = []"
    by (simp_all add: rectangular_def comparable_def masks_agree_def mask_nan_def bshape_def
        bdim_def np_all_eq_def np_isnan_def)
  have x: "collect dec_float (find_bounds [''0.0 x'', ''5.0'']) [''0.0 x'', ''5.0''] 0 sections0 =
     Inl (ValueError ''could not convert string to float: x'')"
    by code_simp
  have s: "section_of (find_bounds [''0.0 x'', ''5.0'']) (int 0) \<noteq> Skipped"
    "refused dec_float ([''0.0 x'', ''5.0''] ! 0)"
    by code_simp+
  have 1: "parse_lines dec_float nanval_default [''0.0 1.0'', ''5.0''] =
     Inr \<lparr> ecdists = [Num 0, Num 1], depths_km = [], times = [], dtdd = [], dtdh = [] \<rparr>"
    using missing_marker_keeps_zero [of "[''0.0 1.0'', ''5.0'']" dec_float _ nanval_default] c a
    by simp
  have 2: "parse_lines dec_float nanval_default [''0.0 x'', ''5.0''] =
     Inl (ValueError ''could not convert string to float: x'')"
    using missing_marker_keeps_zero [of "[''0.0 x'', ''5.0'']" dec_float _ nanval_default] x
    by simp
  from h 1 2 x s show ?thesis
    using missing_marker_keeps_zero [of "[''0.0 1.0'', ''5.0'']"] by blast
qed

text \<open>
  The claim as it is written fails: a table without the \<open># delta samples\<close> line is
  parsed without an error, the distance samples read from index zero.
\<close>

theorem missing_marker_proceeds_counterexample:
  "\<not> has_marker delta_marker table_no_delta_marker \<and>
   dists_start (find_bounds table_no_delta_marker) = 0 \<and>
   parse_lines dec_float nanval_default table_no_delta_marker =
     Inr \<lparr> ecdists = [Num 0, Num 1], depths_km = [Num 5], times = [[Num 10], [Num 11]],
           dtdd = [[Num 2], [Num 3]], dtdh = [[Num 4], [Num 5]] \<rparr>"
  by code_simp

section \<open>Properties of the queries\<close>

subsection \<open>The batched loop\<close>

lemma length_put: "length (put res idx vs) = length res"
  by (induction res idx vs rule: put.induct) simp_all

lemma put_map_nth:
  "i < length res \<Longrightarrow>
   put res idx (map g idx) ! i = (if i \<in> set idx then f4 (g i) else res ! i)"
proof (induction idx arbitrary: res)
  case Nil
  then show ?case by simp
next
  case (Cons j idx)
  have "i < length (res[j := f4 (g j)])" using Cons.prems by simp
  from Cons.IH [OF this] show ?case
    using Cons.prems by (auto simp: nth_list_update)
qed

lemma set_argwhere: "set (argwhere c phase) = {i. i < length phase \<and> phase ! i = c}"
  by (auto simp: argwhere_def)

lemma take_at_ok:
  "\<forall>i \<in> set idx. i < length a \<Longrightarrow> take_at a idx = Inr (map (\<lambda>i. a ! i) idx)"
  by (simp add: take_at_def list_all_iff)

lemma map2_nth:
  "map2 f (map (\<lambda>i. a ! i) idx) (map (\<lambda>i. b ! i) idx) = map (\<lambda>i. f (a ! i) (b ! i)) idx"
  by (induction idx) simp_all

lemma batched_loop_result:
  assumes "set ks \<subseteq> set (keys d)"
    and "length res = length phase"
    and "\<forall>i < length phase. phase ! i \<in> set ks \<longrightarrow> i < length ecdist \<and> i < length depth_km"
  shows "\<exists>res'. batched_loop io d ks phase ecdist depth_km res = Inr res' \<and>
           length res' = length phase \<and>
           (\<forall>i < length phase. res' ! i =
              (if phase ! i \<in> set ks
               then f4 (io (the (map_of d (phase ! i))) (ecdist ! i) (depth_km ! i))
               else res ! i))"
  using assms
proof (induction ks arbitrary: res)
  case Nil
  then show ?case by simp
next
  case (Cons c ks)
  let ?idx = "argwhere c phase"
  have sub: "set ks \<subseteq> set (keys d)" using Cons.prems(1) by simp
  have rng: "\<forall>i < length phase. phase ! i \<in> set ks \<longrightarrow> i < length ecdist \<and> i < length depth_km"
    using Cons.prems(3) by simp
  show ?case
  proof (cases "?idx = []")
    case True
    then have none: "\<forall>i < length phase. phase ! i \<noteq> c"
      using set_argwhere [of c phase] by auto
    from Cons.IH [OF sub Cons.prems(2) rng] obtain res' where
      r: "batched_loop io d ks phase ecdist depth_km res = Inr res'"
         "length res' = length phase"
         "\<forall>i < length phase. res' ! i =
              (if phase ! i \<in> set ks
               then f4 (io (the (map_of d (phase ! i))) (ecdist ! i) (depth_km ! i))
               else res ! i)"
      by blast
    from r none True show ?thesis by (simp add: Let_def)
  next
    case False
    have "c \<in> set (keys d)" using Cons.prems(1) by simp
    then obtain p where p: "map_of d c = Some p"
      using map_of_eq_None_iff [of d c] by (auto simp: keys_def)
    have inr: "\<forall>i \<in> set ?idx. i < length ecdist \<and> i < length depth_km"
      using Cons.prems(3) set_argwhere [of c phase] by auto
    have tx: "take_at ecdist ?idx = Inr (map (\<lambda>i. ecdist ! i) ?idx)"
      using inr by (intro take_at_ok) simp
    have ty: "take_at depth_km ?idx = Inr (map (\<lambda>i. depth_km ! i) ?idx)"
      using inr by (intro take_at_ok) simp
    let ?g = "\<lambda>i. io p (ecdist ! i) (depth_km ! i)"
    let ?res1 = "put res ?idx (map ?g ?idx)"
    have l1: "length ?res1 = length phase" using Cons.prems(2) by (simp add: length_put)
    from Cons.IH [OF sub l1 rng] obtain res' where
      r: "batched_loop io d ks phase ecdist depth_km ?res1 = Inr res'"
         "length res' = length phase"
         "\<forall>i < length phase. res' ! i =
              (if phase ! i \<in> set ks
               then f4 (io (the (map_of d (phase ! i))) (ecdist ! i) (depth_km ! i))
               else ?res1 ! i)"
      by blast
    have step: "batched_loop io d (c # ks) phase ecdist depth_km res = Inr res'"
      using False p tx ty r(1) by (simp add: Let_def map2_nth)
    have vals: "\<forall>i < length phase. res' ! i =
              (if phase ! i \<in> set (c # ks)
               then f4 (io (the (map_of d (phase ! i))) (ecdist ! i) (depth_km ! i))
               else res ! i)"
    proof (intro allI impI)
      fix i assume i: "i < length phase"
      then have il: "i < length res" using Cons.prems(2) by simp
      have r1: "?res1 ! i = (if phase ! i = c then f4 (?g i) else res ! i)"
        using put_map_nth [OF il, of ?idx ?g] i by (simp add: set_argwhere)
      show "res' ! i =
              (if phase ! i \<in> set (c # ks)
               then f4 (io (the (map_of d (phase ! i))) (ecdist ! i) (depth_km ! i))
               else res ! i)"
        using r(3) i r1 p by auto
    qed
    from step r(2) vals show ?thesis by blast
  qed
qed

subsection \<open>What a query answers and what it leaves behind\<close>

lemma map_of_phases_get:
  "map_of (fst (phases_get (phases tt) model)) phase = registered tt model phase"
  by (simp add: phases_get_def registered_def split: option.splits)

lemma in_keys_iff: "k \<in> set (keys d) \<longleftrightarrow> map_of d k \<noteq> None"
  by (simp add: keys_def map_of_eq_None_iff)

lemma get_with_scalar:
  "fst (get_with io tt (Scalar phase x y) model) =
     Inr (Value (case registered tt model phase of None \<Rightarrow> fill_value tt | Some p \<Rightarrow> io p x y))"
proof -
  obtain d r where dr: "phases_get (phases tt) model = (d, r)" by (cases "phases_get (phases tt) model")
  then have "map_of d phase = registered tt model phase"
    using map_of_phases_get [of tt model phase] by simp
  then show ?thesis
    by (simp add: get_with_def dr split: option.splits)
qed

lemma get_with_batched:
  assumes "\<forall>i < length phase. registered tt model (phase ! i) \<noteq> None \<longrightarrow>
             i < length ecdist \<and> i < length depth_km"
  shows "fst (get_with io tt (Batched phase ecdist depth_km) model) =
     Inr (Array (map (\<lambda>i. slot io tt model (phase ! i) (ecdist ! i) (depth_km ! i))
                   [0..<length phase]))"
proof -
  obtain d r where dr: "phases_get (phases tt) model = (d, r)" by (cases "phases_get (phases tt) model")
  then have reg: "map_of d ph = registered tt model ph" for ph
    using map_of_phases_get [of tt model ph] by simp
  have rng: "\<forall>i < length phase. phase ! i \<in> set (keys d) \<longrightarrow>
      i < length ecdist \<and> i < length depth_km"
    using assms by (simp add: in_keys_iff reg)
  let ?res0 = "replicate (length phase) (f4 (fill_value tt))"
  from batched_loop_result [of "keys d" d ?res0 phase ecdist depth_km io, OF _ _ rng]
  obtain res' where
    r: "batched_loop io d (keys d) phase ecdist depth_km ?res0 = Inr res'"
       "length res' = length phase"
       "\<forall>i < length phase. res' ! i =
          (if phase ! i \<in> set (keys d)
           then f4 (io (the (map_of d (phase ! i))) (ecdist ! i) (depth_km ! i))
           else ?res0 ! i)"
    by auto
  have "res' = map (\<lambda>i. slot io tt model (phase ! i) (ecdist ! i) (depth_km ! i)) [0..<length phase]"
  proof (rule nth_equalityI)
    show "length res' = length (map (\<lambda>i. slot io tt model (phase ! i) (ecdist ! i) (depth_km ! i))
        [0..<length phase])"
      using r(2) by simp
  next
    fix i assume "i < length res'"
    then have i: "i < length phase" using r(2) by simp
    show "res' ! i = map (\<lambda>i. slot io tt model (phase ! i) (ecdist ! i) (depth_km ! i))
        [0..<length phase] ! i"
      using r(3) i by (auto simp: slot_def in_keys_iff reg split: option.splits)
  qed
  with r(1) show ?thesis by (simp add: get_with_def dr)
qed

lemma snd_get_with:
  "snd (get_with io tt q model) = tt\<lparr>phases := snd (phases_get (phases tt) model)\<rparr>"
  by (simp add: get_with_def Let_def split: prod.splits query.splits sum.splits option.splits)

lemma snd_phases_get:
  "snd (phases_get r model) = (if model \<in> set (keys r) then r else r @ [(model, [])])"
  by (auto simp: phases_get_def in_keys_iff split: option.splits)

lemma registered_after:
  "registered (tt\<lparr>phases := snd (phases_get (phases tt) model)\<rparr>) m phase = registered tt m phase"
  by (auto simp: registered_def snd_phases_get in_keys_iff split: option.splits if_splits)

subsection \<open>Scalar queries for a pair that is not registered\<close>

text \<open>
  Claim C1, as the code has it. A scalar query for a model and a phase label that have no
  registered phase raises nothing: the guard \<open>phase in self.phases[model].keys()\<close> fails
  and the function returns the fill value it started with.
\<close>

theorem scalar_unregistered_returns_fill:
  "registered tt model phase = None \<Longrightarrow>
   fst (get_tt tt (Scalar phase x y) model) = Inr (Value (fill_value tt)) \<and>
   fst (get_dtdd tt (Scalar phase x y) model) = Inr (Value (fill_value tt)) \<and>
   fst (get_dtdh tt (Scalar phase x y) model) = Inr (Value (fill_value tt))"
  by (simp add: get_tt_def get_dtdd_def get_dtdh_def get_with_scalar)

theorem scalar_unregistered_returns_fill_witness:
  "registered tt_P ''ak135'' (Bytes ''S'') = None \<and>
   fst (get_tt tt_P (Scalar (Bytes ''S'') (Num 2) (Num 5)) ''ak135'') = Inr (Value (Num 2147483647)) \<and>
   fst (get_dtdd tt_P (Scalar (Bytes ''S'') (Num 2) (Num 5)) ''ak135'') = Inr (Value (Num 2147483647)) \<and>
   fst (get_dtdh tt_P (Scalar (Bytes ''S'') (Num 2) (Num 5)) ''ak135'') = Inr (Value (Num 2147483647))"
proof -
  have h: "registered tt_P ''ak135'' (Bytes ''S'') = None"
    by (simp add: registered_def tt_P_def)
  have f: "fill_value tt_P = Num 2147483647"
    by (simp add: tt_P_def LARGE_VALUE_def)
  show ?thesis
    using scalar_unregistered_returns_fill [OF h, of "Num 2" "Num 5"] h f by simp
qed

text \<open>
  The claim as it is written fails: on the registry of an empty table folder, the scalar
  query for phase \<open>P\<close> of model \<open>ak135\<close> returns the fill value and raises nothing.
\<close>

theorem scalar_unregistered_counterexample:
  "registered tt_empty ''ak135'' (Bytes ''P'') = None \<and>
   fst (get_tt tt_empty (Scalar (Bytes ''P'') (Num 10) (Num 0)) ''ak135'') =
     Inr (Value (Num 2147483647))"
  by (simp add: registered_def tt_empty_def get_tt_def get_with_def phases_get_def LARGE_VALUE_def)

subsection \<open>The state after a query\<close>

text \<open>
  Claim C7, as the code has it. A query changes neither the fill value nor the phase that
  is registered for any model and label, and it leaves the registry as it was when the
  model is one of its keys. For a model that is not a key, the read of
  \<open>self.phases[model]\<close> stores an empty dictionary under it.
\<close>

theorem query_state:
  "(\<forall>get \<in> {get_tt, get_dtdd, get_dtdh}.
      snd (get tt q model) =
        (if model \<in> set (keys (phases tt)) then tt
         else tt\<lparr>phases := phases tt @ [(model, [])]\<rparr>) \<and>
      fill_value (snd (get tt q model)) = fill_value tt \<and>
      (\<forall>m phase. registered (snd (get tt q model)) m phase = registered tt m phase))"
proof -
  have "snd (get_with io tt q model) =
        (if model \<in> set (keys (phases tt)) then tt
         else tt\<lparr>phases := phases tt @ [(model, [])]\<rparr>) \<and>
      fill_value (snd (get_with io tt q model)) = fill_value tt \<and>
      (\<forall>m phase. registered (snd (get_with io tt q model)) m phase = registered tt m phase)" for io
  proof (intro conjI)
    show "snd (get_with io tt q model) =
        (if model \<in> set (keys (phases tt)) then tt
         else tt\<lparr>phases := phases tt @ [(model, [])]\<rparr>)"
      by (simp add: snd_get_with snd_phases_get)
    show "fill_value (snd (get_with io tt q model)) = fill_value tt"
      by (simp add: snd_get_with)
    show "\<forall>m phase. registered (snd (get_with io tt q model)) m phase = registered tt m phase"
      by (simp add: snd_get_with registered_after)
  qed
  then show ?thesis
    unfolding get_tt_def get_dtdd_def get_dtdh_def by blast
qed

theorem query_state_witness:
  "get_tt \<in> {get_tt, get_dtdd, get_dtdh} \<and>
   ''ak135'' \<in> set (keys (phases tt_P)) \<and>
   snd (get_tt tt_P (Scalar (Bytes ''P'') (Num 2) (Num 5)) ''ak135'') = tt_P \<and>
   ''iasp91'' \<notin> set (keys (phases tt_P)) \<and>
   snd (get_tt tt_P (Scalar (Bytes ''P'') (Num 2) (Num 5)) ''iasp91'') =
     tt_P\<lparr>phases := phases tt_P @ [(''iasp91'', [])]\<rparr>"
proof -
  have k: "''ak135'' \<in> set (keys (phases tt_P))" "''iasp91'' \<notin> set (keys (phases tt_P))"
    by (simp_all add: tt_P_def keys_def)
  have g: "get_tt \<in> {get_tt, get_dtdd, get_dtdh}" by simp
  show ?thesis
    using query_state [of tt_P "Scalar (Bytes ''P'') (Num 2) (Num 5)" "''ak135''"]
      query_state [of tt_P "Scalar (Bytes ''P'') (Num 2) (Num 5)" "''iasp91''"] k g
    by simp
qed

text \<open>
  The claim as it is written fails: after a query for the model \<open>iasp91\<close> on the registry
  of an empty table folder, the registry has the key \<open>iasp91\<close>.
\<close>

theorem query_state_counterexample:
  "phases tt_empty = [] \<and>
   phases (snd (get_tt tt_empty (Scalar (Bytes ''P'') (Num 10) (Num 0)) ''iasp91'')) =
     [(''iasp91'', [])] \<and>
   phases (snd (get_tt tt_empty (Batched [Bytes ''P''] [Num 10] [Num 0]) ''iasp91'')) =
     [(''iasp91'', [])]"
  by (simp add: tt_empty_def get_tt_def get_with_def phases_get_def keys_def)

subsection \<open>The binary logarithm of the rounding\<close>

text \<open>
  \<open>floor_log2\<close> is the integer part of the binary logarithm: the rounding looks for the
  last place of its argument in the right binade.
\<close>

lemma ilog2_bounds:
  "1 \<le> n \<Longrightarrow> 0 \<le> ilog2 n \<and> 2 ^ nat (ilog2 n) \<le> n \<and> n < 2 ^ nat (ilog2 n + 1)"
proof (induction n rule: ilog2.induct)
  case (1 n)
  show ?case
  proof (cases "n \<le> 1")
    case True
    with "1.prems" have "n = 1" by simp
    then show ?thesis by (simp add: ilog2.simps)
  next
    case False
    then have h: "1 \<le> n div 2" by simp
    from "1.IH" [OF False h] have
      ih: "0 \<le> ilog2 (n div 2)" "2 ^ nat (ilog2 (n div 2)) \<le> n div 2"
          "n div 2 < 2 ^ nat (ilog2 (n div 2) + 1)"
      by simp_all
    have e: "ilog2 n = 1 + ilog2 (n div 2)" using False by (simp add: ilog2.simps)
    have n1: "nat (ilog2 n) = Suc (nat (ilog2 (n div 2)))" using ih(1) e by simp
    have n2: "nat (ilog2 n + 1) = Suc (nat (ilog2 (n div 2) + 1))" using ih(1) e by simp
    have n3: "nat (ilog2 (n div 2) + 1) = Suc (nat (ilog2 (n div 2)))" using ih(1) by simp
    have a: "2 ^ nat (ilog2 n) \<le> n"
    proof -
      have "(2::int) ^ nat (ilog2 n) = 2 * 2 ^ nat (ilog2 (n div 2))" by (simp add: n1)
      also have "\<dots> \<le> 2 * (n div 2)" using ih(2) by simp
      also have "\<dots> \<le> n" by simp
      finally show ?thesis .
    qed
    have b: "n < 2 ^ nat (ilog2 n + 1)"
    proof -
      have "n div 2 + 1 \<le> 2 ^ nat (ilog2 (n div 2) + 1)" using ih(3) by simp
      then have "2 * (n div 2) + 2 \<le> 2 * 2 ^ nat (ilog2 (n div 2) + 1)" by simp
      moreover have "n < 2 * (n div 2) + 2" by presburger
      ultimately have "n < 2 * 2 ^ nat (ilog2 (n div 2) + 1)" by linarith
      then show ?thesis by (simp add: n2)
    qed
    from a b ih(1) e show ?thesis by simp
  qed
qed

lemma floor_log2_bounds:
  assumes "0 < x"
  shows "2 powi (floor_log2 x) \<le> x \<and> x < 2 powi (floor_log2 x + 1)"
proof (cases "1 \<le> x")
  case True
  then have f: "1 \<le> \<lfloor>x\<rfloor>" by simp
  let ?k = "ilog2 \<lfloor>x\<rfloor>"
  from ilog2_bounds [OF f] have k: "0 \<le> ?k" "2 ^ nat ?k \<le> \<lfloor>x\<rfloor>" "\<lfloor>x\<rfloor> < 2 ^ nat (?k + 1)"
    by simp_all
  have lo: "(2::real) ^ nat ?k \<le> x"
  proof -
    have "(2::real) ^ nat ?k = of_int (2 ^ nat ?k)" by simp
    also have "\<dots> \<le> of_int \<lfloor>x\<rfloor>" using k(2) by (simp only: of_int_le_iff)
    also have "\<dots> \<le> x" by simp
    finally show ?thesis .
  qed
  have hi: "x < (2::real) ^ nat (?k + 1)"
  proof -
    have "\<lfloor>x\<rfloor> + 1 \<le> 2 ^ nat (?k + 1)" using k(3) by simp
    then have "of_int (\<lfloor>x\<rfloor> + 1) \<le> (of_int (2 ^ nat (?k + 1)) :: real)"
      by (simp only: of_int_le_iff)
    then have u: "of_int \<lfloor>x\<rfloor> + 1 \<le> (2::real) ^ nat (?k + 1)" by simp
    have "x < of_int \<lfloor>x\<rfloor> + 1" by linarith
    with u show ?thesis by linarith
  qed
  from lo hi k(1) True show ?thesis
    by (simp add: floor_log2_def power_int_def)
next
  case False
  with assms have x1: "x < 1" by simp
  with assms have inv1: "1 < 1 / x" by simp
  let ?n = "\<lceil>1 / x\<rceil>"
  have n2: "2 \<le> ?n" using inv1 by linarith
  then have m1: "1 \<le> ?n - 1" by simp
  let ?j = "ilog2 (?n - 1)"
  from ilog2_bounds [OF m1] have j: "0 \<le> ?j" "2 ^ nat ?j \<le> ?n - 1" "?n - 1 < 2 ^ nat (?j + 1)"
    by simp_all
  have fl: "floor_log2 x = - (?j + 1)"
    using False n2 by (simp add: floor_log2_def)
  have up: "1 / x \<le> 2 ^ nat (?j + 1)"
  proof -
    have "?n \<le> 2 ^ nat (?j + 1)" using j(3) by simp
    then have "of_int ?n \<le> (of_int (2 ^ nat (?j + 1)) :: real)" by (simp only: of_int_le_iff)
    then have u: "of_int ?n \<le> (2::real) ^ nat (?j + 1)" by simp
    have "1 / x \<le> of_int ?n" by (rule le_of_int_ceiling)
    with u show ?thesis by linarith
  qed
  have dn: "2 ^ nat ?j < 1 / x"
  proof -
    have "of_int (2 ^ nat ?j) \<le> (of_int (?n - 1) :: real)" using j(2) by (simp only: of_int_le_iff)
    then have u: "(2::real) ^ nat ?j \<le> of_int ?n - 1" by simp
    have "of_int ?n - 1 < 1 / x" by linarith
    with u show ?thesis by linarith
  qed
  have lo: "2 powi (- (?j + 1)) \<le> x"
  proof -
    have "1 \<le> x * 2 ^ nat (?j + 1)"
      using up assms by (simp add: field_simps)
    then have "1 / 2 ^ nat (?j + 1) \<le> x" by (simp add: field_simps)
    moreover have "(2::real) powi (- (?j + 1)) = 1 / 2 ^ nat (?j + 1)"
      using j(1) by (simp add: power_int_def field_simps)
    ultimately show ?thesis by simp
  qed
  have hi: "x < 2 powi (- ?j)"
  proof -
    have "x * 2 ^ nat ?j < 1" using dn assms by (simp add: field_simps)
    then have "x < 1 / 2 ^ nat ?j" by (simp add: field_simps)
    moreover have "(2::real) powi (- ?j) = 1 / 2 ^ nat ?j"
      using j(1) by (cases "?j = 0") (simp_all add: power_int_def field_simps)
    ultimately show ?thesis by simp
  qed
  from lo hi fl show ?thesis by simp
qed

subsection \<open>Batched queries\<close>

lemma f4_LARGE_VALUE: "f4 LARGE_VALUE = Num 2147483648"
  by code_simp

text \<open>The rounding on a few values: exact ones, ties, the overflow.\<close>

lemma f4_examples:
  "f4 (Num 1) = Num 1"
  "f4 (Num (1 / 10)) = Num (13421773 / 134217728)"
  "f4 (Num (- (7 / 2))) = Num (- (7 / 2))"
  "f4 (Num 16777217) = Num 16777216"
  "f4 (Num 16777219) = Num 16777220"
  "f4 (Num (2 ^ 128)) = PInf"
  "f4 NaN = NaN"
  by code_simp+

lemma take_at_fails:
  assumes "i \<in> set idx" and "length a \<le> i"
  shows "take_at a idx = Inl IndexError"
proof -
  from assms(2) have "\<not> i < length a" by simp
  with assms(1) have "\<not> (\<forall>j \<in> set idx. j < length a)" by blast
  then show ?thesis by (simp add: take_at_def list_all_iff)
qed

lemma take_at_cases: "take_at a idx = Inl IndexError \<or> (\<exists>xs. take_at a idx = Inr xs)"
  by (simp add: take_at_def)

lemma batched_loop_raises:
  assumes "\<exists>i < length phase. phase ! i \<in> set ks \<and> (length ecdist \<le> i \<or> length depth_km \<le> i)"
  shows "\<exists>e. batched_loop io d ks phase ecdist depth_km res = Inl e"
  using assms
proof (induction ks arbitrary: res)
  case Nil
  then show ?case by simp
next
  case (Cons c ks)
  then obtain i where i: "i < length phase" "phase ! i \<in> set (c # ks)"
    "length ecdist \<le> i \<or> length depth_km \<le> i" by blast
  let ?idx = "argwhere c phase"
  show ?case
  proof (cases "phase ! i = c")
    case True
    with i(1) have mem: "i \<in> set ?idx" by (simp add: set_argwhere)
    then have ne: "?idx \<noteq> []" by auto
    show ?thesis
    proof (cases "map_of d c")
      case None
      with ne show ?thesis by (simp add: Let_def)
    next
      case (Some p)
      from i(3) show ?thesis
      proof
        assume "length ecdist \<le> i"
        from take_at_fails [OF mem this] ne Some show ?thesis by (simp add: Let_def)
      next
        assume "length depth_km \<le> i"
        from take_at_fails [OF mem this] have "take_at depth_km ?idx = Inl IndexError" .
        with ne Some take_at_cases [of ecdist ?idx] show ?thesis
          by (auto simp: Let_def)
      qed
    qed
  next
    case False
    with i have "\<exists>i < length phase. phase ! i \<in> set ks \<and>
        (length ecdist \<le> i \<or> length depth_km \<le> i)" by auto
    from Cons.IH [OF this] show ?thesis
      by (auto simp: Let_def split: option.splits sum.splits)
  qed
qed

lemma get_with_batched_raises:
  assumes "\<exists>i < length phase. registered tt model (phase ! i) \<noteq> None \<and>
             (length ecdist \<le> i \<or> length depth_km \<le> i)"
  shows "fst (get_with io tt (Batched phase ecdist depth_km) model) = Inl (not_found model)"
proof -
  obtain d r where dr: "phases_get (phases tt) model = (d, r)" by (cases "phases_get (phases tt) model")
  then have reg: "map_of d ph = registered tt model ph" for ph
    using map_of_phases_get [of tt model ph] by simp
  have "\<exists>i < length phase. phase ! i \<in> set (keys d) \<and>
      (length ecdist \<le> i \<or> length depth_km \<le> i)"
    using assms by (simp add: in_keys_iff reg)
  from batched_loop_raises [OF this]
  obtain e where "batched_loop io d (keys d) phase ecdist depth_km
      (replicate (length phase) (f4 (fill_value tt))) = Inl e"
    by blast
  then show ?thesis by (simp add: get_with_def dr)
qed

text \<open>
  Claim C4, as the code has it. A batched query returns whenever every entry with a
  registered phase has a distance and a depth at its index, and raises exactly when one
  has not: an unknown phase never makes it raise. The slot of every entry without a
  registered phase holds the fill value rounded to a 32-bit float.
\<close>

theorem batched_unregistered_slot:
  "\<forall>get \<in> {get_tt, get_dtdd, get_dtdh}.
     ((\<forall>i < length phase. registered tt model (phase ! i) \<noteq> None \<longrightarrow>
          i < length ecdist \<and> i < length depth_km) \<longrightarrow>
        (\<exists>result. fst (get tt (Batched phase ecdist depth_km) model) = Inr (Array result) \<and>
           length result = length phase \<and>
           (\<forall>i < length phase. registered tt model (phase ! i) = None \<longrightarrow>
              result ! i = f4 (fill_value tt)))) \<and>
     ((\<exists>i < length phase. registered tt model (phase ! i) \<noteq> None \<and>
          (length ecdist \<le> i \<or> length depth_km \<le> i)) \<longrightarrow>
        fst (get tt (Batched phase ecdist depth_km) model) = Inl (not_found model))"
proof -
  have "((\<forall>i < length phase. registered tt model (phase ! i) \<noteq> None \<longrightarrow>
          i < length ecdist \<and> i < length depth_km) \<longrightarrow>
        (\<exists>result. fst (get_with io tt (Batched phase ecdist depth_km) model) = Inr (Array result) \<and>
           length result = length phase \<and>
           (\<forall>i < length phase. registered tt model (phase ! i) = None \<longrightarrow>
              result ! i = f4 (fill_value tt)))) \<and>
     ((\<exists>i < length phase. registered tt model (phase ! i) \<noteq> None \<and>
          (length ecdist \<le> i \<or> length depth_km \<le> i)) \<longrightarrow>
        fst (get_with io tt (Batched phase ecdist depth_km) model) = Inl (not_found model))" for io
  proof (intro conjI impI)
    assume rng: "\<forall>i < length phase. registered tt model (phase ! i) \<noteq> None \<longrightarrow>
          i < length ecdist \<and> i < length depth_km"
    show "\<exists>result. fst (get_with io tt (Batched phase ecdist depth_km) model) = Inr (Array result) \<and>
           length result = length phase \<and>
           (\<forall>i < length phase. registered tt model (phase ! i) = None \<longrightarrow>
              result ! i = f4 (fill_value tt))"
      by (simp add: get_with_batched [OF rng] slot_def)
  next
    assume "\<exists>i < length phase. registered tt model (phase ! i) \<noteq> None \<and>
          (length ecdist \<le> i \<or> length depth_km \<le> i)"
    then show "fst (get_with io tt (Batched phase ecdist depth_km) model) = Inl (not_found model)"
      by (rule get_with_batched_raises)
  qed
  then show ?thesis
    unfolding get_tt_def get_dtdd_def get_dtdh_def by blast
qed

theorem batched_unregistered_slot_witness:
  "length [Bytes ''P'', Bytes ''S''] \<le> length [Num 2, Num 2] \<and>
   length [Bytes ''P'', Bytes ''S''] \<le> length [Num 5, Num 5] \<and>
   get_tt \<in> {get_tt, get_dtdd, get_dtdh} \<and>
   registered tt_P ''ak135'' ([Bytes ''P'', Bytes ''S''] ! 1) = None \<and>
   (\<exists>result. fst (get_tt tt_P (Batched [Bytes ''P'', Bytes ''S''] [Num 2, Num 2] [Num 5, Num 5]) ''ak135'')
       = Inr (Array result) \<and> length result = 2 \<and> result ! 1 = Num 2147483648) \<and>
   registered tt_P ''ak135'' ([Bytes ''S'', Bytes ''P''] ! 1) \<noteq> None \<and>
   length [Num 2] \<le> 1 \<and>
   fst (get_tt tt_P (Batched [Bytes ''S'', Bytes ''P''] [Num 2] [Num 5]) ''ak135'') =
     Inl (ValueError ''Either model ak135 or phase not found..'')"
proof -
  have h: "\<forall>i < length [Bytes ''P'', Bytes ''S'']. registered tt_P ''ak135'' ([Bytes ''P'', Bytes ''S''] ! i) \<noteq> None \<longrightarrow>
       i < length [Num 2, Num 2] \<and> i < length [Num 5, Num 5]"
    by simp
  have g: "get_tt \<in> {get_tt, get_dtdd, get_dtdh}" by simp
  have n: "registered tt_P ''ak135'' ([Bytes ''P'', Bytes ''S''] ! 1) = None"
    by (simp add: registered_def tt_P_def)
  have f: "f4 (fill_value tt_P) = Num 2147483648"
    by (simp add: tt_P_def f4_LARGE_VALUE)
  have p: "registered tt_P ''ak135'' ([Bytes ''S'', Bytes ''P''] ! 1) \<noteq> None"
    by (simp add: registered_def tt_P_def)
  have b: "\<exists>i < length [Bytes ''S'', Bytes ''P'']. registered tt_P ''ak135'' ([Bytes ''S'', Bytes ''P''] ! i) \<noteq> None \<and>
          (length [Num 2] \<le> i \<or> length [Num 5] \<le> i)"
    using p by (intro exI [of _ 1]) simp
  from batched_unregistered_slot [of "[Bytes ''P'', Bytes ''S'']" tt_P "''ak135''"
      "[Num 2, Num 2]" "[Num 5, Num 5]"] h g n f
  have 1: "\<exists>result. fst (get_tt tt_P (Batched [Bytes ''P'', Bytes ''S''] [Num 2, Num 2] [Num 5, Num 5]) ''ak135'')
       = Inr (Array result) \<and> length result = 2 \<and> result ! 1 = Num 2147483648"
    by fastforce
  from batched_unregistered_slot [of "[Bytes ''S'', Bytes ''P'']" tt_P "''ak135''"
      "[Num 2]" "[Num 5]"] g b
  have 2: "fst (get_tt tt_P (Batched [Bytes ''S'', Bytes ''P''] [Num 2] [Num 5]) ''ak135'') =
     Inl (ValueError ''Either model ak135 or phase not found..'')"
    by (simp add: not_found_def)
  from 1 2 g n p show ?thesis by simp
qed

text \<open>
  The claim as it is written fails: the slot of the unknown phase \<open>S\<close> holds
  \<open>2147483648\<close>, which is not the fill value \<open>2147483647\<close> of the registry.
\<close>

theorem batched_unregistered_slot_counterexample:
  "registered tt_P ''ak135'' (Bytes ''S'') = None \<and>
   fst (get_tt tt_P (Batched [Bytes ''P'', Bytes ''S''] [Num 2, Num 2] [Num 5, Num 5]) ''ak135'') =
     Inr (Array [Num 16777216, Num 2147483648]) \<and>
   fill_value tt_P = Num 2147483647"
  apply (simp add: get_tt_def get_with_def tt_P_def phases_get_def keys_def argwhere_def
      take_at_def phase_P_def at_samples_def registered_def)
  apply code_simp
  done

text \<open>
  Claim C5, as the code has it. For parallel arrays, the batched \<open>get_tt\<close> returns an array
  as long as the input, and its element at each index is the answer of the scalar
  \<open>get_tt\<close> for the label, distance and depth at that index, rounded to a 32-bit float.
\<close>

theorem batched_is_rounded_scalar:
  assumes "length ecdist = length phase" and "length depth_km = length phase"
  shows "\<exists>result. fst (get_tt tt (Batched phase ecdist depth_km) model) = Inr (Array result) \<and>
           length result = length phase \<and>
           (\<forall>i < length phase. \<exists>v.
              fst (get_tt tt (Scalar (phase ! i) (ecdist ! i) (depth_km ! i)) model) = Inr (Value v) \<and>
              result ! i = f4 v)"
proof -
  have rng: "\<forall>i < length phase. registered tt model (phase ! i) \<noteq> None \<longrightarrow>
             i < length ecdist \<and> i < length depth_km"
    using assms by simp
  show ?thesis
    by (auto simp: get_tt_def get_with_batched [OF rng] get_with_scalar slot_def
        split: option.splits)
qed

theorem batched_is_rounded_scalar_witness:
  "length [Num 2, Num 2] = length [Bytes ''P'', Bytes ''S''] \<and>
   length [Num 5, Num 5] = length [Bytes ''P'', Bytes ''S''] \<and>
   (\<exists>result. fst (get_tt tt_P (Batched [Bytes ''P'', Bytes ''S''] [Num 2, Num 2] [Num 5, Num 5]) ''ak135'')
        = Inr (Array result) \<and>
      length result = 2 \<and>
      (\<forall>i < 2. \<exists>v.
         fst (get_tt tt_P (Scalar ([Bytes ''P'', Bytes ''S''] ! i) ([Num 2, Num 2] ! i)
                ([Num 5, Num 5] ! i)) ''ak135'') = Inr (Value v) \<and>
         result ! i = f4 v))"
proof -
  have a: "length [Num 2, Num 2] = length [Bytes ''P'', Bytes ''S'']" by simp
  have b: "length [Num 5, Num 5] = length [Bytes ''P'', Bytes ''S'']" by simp
  show ?thesis
    using batched_is_rounded_scalar [OF a b, of tt_P "''ak135''"] by (simp add: numeral_2_eq_2)
qed

text \<open>
  The claim as it is written fails: the batched answer for the registered phase \<open>P\<close> at
  its sample is \<open>16777216\<close> where the scalar answer is \<open>16777217\<close>, and for the unknown
  phase \<open>S\<close> it is \<open>2147483648\<close> where the scalar answer is \<open>2147483647\<close>.
\<close>

theorem batched_equals_scalar_counterexample:
  "fst (get_tt tt_P (Batched [Bytes ''P'', Bytes ''S''] [Num 2, Num 2] [Num 5, Num 5]) ''ak135'') =
     Inr (Array [Num 16777216, Num 2147483648]) \<and>
   fst (get_tt tt_P (Scalar (Bytes ''P'') (Num 2) (Num 5)) ''ak135'') = Inr (Value (Num 16777217)) \<and>
   fst (get_tt tt_P (Scalar (Bytes ''S'') (Num 2) (Num 5)) ''ak135'') = Inr (Value (Num 2147483647))"
  apply (simp add: get_tt_def get_with_def tt_P_def phases_get_def keys_def argwhere_def
      take_at_def phase_P_def at_samples_def LARGE_VALUE_def)
  apply code_simp
  done

text \<open>
  Claim C8. The batched answer is an array of 32-bit floats: each slot holds the
  interpolated value of the registered phase, or the fill value where no phase is
  registered, rounded to 32 bits. The default fill value \<open>2147483647\<close> rounds to
  \<open>2147483648\<close>, so the slot of an unmatched entry differs from what the scalar shape
  returns for the same label.
\<close>

theorem batched_float32:
  "((\<forall>i < length phase. registered tt model (phase ! i) \<noteq> None \<longrightarrow>
        i < length ecdist \<and> i < length depth_km) \<longrightarrow>
    fst (get_tt tt (Batched phase ecdist depth_km) model) =
      Inr (Array (map (\<lambda>i. case registered tt model (phase ! i) of
                             None \<Rightarrow> f4 (fill_value tt)
                           | Some p \<Rightarrow> f4 (times_io p (ecdist ! i) (depth_km ! i)))
                    [0..<length phase])) \<and>
    fst (get_dtdd tt (Batched phase ecdist depth_km) model) =
      Inr (Array (map (\<lambda>i. case registered tt model (phase ! i) of
                             None \<Rightarrow> f4 (fill_value tt)
                           | Some p \<Rightarrow> f4 (dtdd_io p (ecdist ! i) (depth_km ! i)))
                    [0..<length phase])) \<and>
    fst (get_dtdh tt (Batched phase ecdist depth_km) model) =
      Inr (Array (map (\<lambda>i. case registered tt model (phase ! i) of
                             None \<Rightarrow> f4 (fill_value tt)
                           | Some p \<Rightarrow> f4 (dtdh_io p (ecdist ! i) (depth_km ! i)))
                    [0..<length phase]))) \<and>
   LARGE_VALUE = Num 2147483647 \<and> f4 LARGE_VALUE = Num 2147483648 \<and>
   (fill_value tt = LARGE_VALUE \<and> registered tt model ph = None \<longrightarrow>
      fst (get_tt tt (Batched [ph] [x] [y]) model) = Inr (Array [Num 2147483648]) \<and>
      fst (get_tt tt (Scalar ph x y) model) = Inr (Value (Num 2147483647)))"
proof (intro conjI impI)
  assume rng: "\<forall>i < length phase. registered tt model (phase ! i) \<noteq> None \<longrightarrow>
        i < length ecdist \<and> i < length depth_km"
  have s: "slot io tt model ph' x' y' =
      (case registered tt model ph' of None \<Rightarrow> f4 (fill_value tt) | Some p \<Rightarrow> f4 (io p x' y'))"
    for io ph' x' y'
    by (simp add: slot_def)
  show "fst (get_tt tt (Batched phase ecdist depth_km) model) =
      Inr (Array (map (\<lambda>i. case registered tt model (phase ! i) of
                             None \<Rightarrow> f4 (fill_value tt)
                           | Some p \<Rightarrow> f4 (times_io p (ecdist ! i) (depth_km ! i)))
                    [0..<length phase]))"
    by (simp add: get_tt_def get_with_batched [OF rng] s)
  show "fst (get_dtdd tt (Batched phase ecdist depth_km) model) =
      Inr (Array (map (\<lambda>i. case registered tt model (phase ! i) of
                             None \<Rightarrow> f4 (fill_value tt)
                           | Some p \<Rightarrow> f4 (dtdd_io p (ecdist ! i) (depth_km ! i)))
                    [0..<length phase]))"
    by (simp add: get_dtdd_def get_with_batched [OF rng] s)
  show "fst (get_dtdh tt (Batched phase ecdist depth_km) model) =
      Inr (Array (map (\<lambda>i. case registered tt model (phase ! i) of
                             None \<Rightarrow> f4 (fill_value tt)
                           | Some p \<Rightarrow> f4 (dtdh_io p (ecdist ! i) (depth_km ! i)))
                    [0..<length phase]))"
    by (simp add: get_dtdh_def get_with_batched [OF rng] s)
next
  show "LARGE_VALUE = Num 2147483647" by (simp add: LARGE_VALUE_def)
next
  show "f4 LARGE_VALUE = Num 2147483648" by (rule f4_LARGE_VALUE)
next
  assume a: "fill_value tt = LARGE_VALUE \<and> registered tt model ph = None"
  have rng: "\<forall>i < length [ph]. registered tt model ([ph] ! i) \<noteq> None \<longrightarrow>
        i < length [x] \<and> i < length [y]" by simp
  show "fst (get_tt tt (Batched [ph] [x] [y]) model) = Inr (Array [Num 2147483648])"
    using a by (simp add: get_tt_def get_with_batched [OF rng] slot_def f4_LARGE_VALUE)
  show "fst (get_tt tt (Scalar ph x y) model) = Inr (Value (Num 2147483647))"
    using a by (simp add: get_tt_def get_with_scalar LARGE_VALUE_def)
qed

theorem batched_float32_witness:
  "length [Bytes ''P'', Bytes ''S''] \<le> length [Num 2, Num 2] \<and>
   length [Bytes ''P'', Bytes ''S''] \<le> length [Num 5, Num 5] \<and>
   fst (get_tt tt_P (Batched [Bytes ''P'', Bytes ''S''] [Num 2, Num 2] [Num 5, Num 5]) ''ak135'') =
     Inr (Array [f4 (Num 16777217), f4 (Num 2147483647)]) \<and>
   fill_value tt_P = LARGE_VALUE \<and> registered tt_P ''ak135'' (Bytes ''S'') = None \<and>
   fst (get_tt tt_P (Batched [Bytes ''S''] [Num 2] [Num 5]) ''ak135'') = Inr (Array [Num 2147483648]) \<and>
   fst (get_tt tt_P (Scalar (Bytes ''S'') (Num 2) (Num 5)) ''ak135'') = Inr (Value (Num 2147483647))"
proof -
  have h: "\<forall>i < length [Bytes ''P'', Bytes ''S'']. registered tt_P ''ak135'' ([Bytes ''P'', Bytes ''S''] ! i) \<noteq> None \<longrightarrow>
       i < length [Num 2, Num 2] \<and> i < length [Num 5, Num 5]"
    by simp
  have f: "fill_value tt_P = LARGE_VALUE" by (simp add: tt_P_def)
  have n: "registered tt_P ''ak135'' (Bytes ''S'') = None"
    by (simp add: registered_def tt_P_def)
  have p: "registered tt_P ''ak135'' (Bytes ''P'') = Some phase_P"
    by (simp add: registered_def tt_P_def)
  have v: "times_io phase_P (Num 2) (Num 5) = Num 16777217"
    by (simp add: phase_P_def at_samples_def)
  have l: "LARGE_VALUE = Num 2147483647" by (simp add: LARGE_VALUE_def)
  show ?thesis
    using batched_float32 [of "[Bytes ''P'', Bytes ''S'']" tt_P "''ak135''" "[Num 2, Num 2]"
        "[Num 5, Num 5]" "Bytes ''S''" "Num 2" "Num 5"] h f n p v l
    by (simp add: upt_rec [of 0] upt_rec [of 1])
qed

section \<open>Properties of the registry\<close>

subsection \<open>The keys that the construction stores\<close>








subsection \<open>The example registry is what the construction builds\<close>








end
